theory Spec2Isabelle
  imports Main "HOL-Library.Char_ord" "HOL-Library.List_Lexorder"
begin

section \<open>String utilities used by the program\<close>

text \<open>
  Paths and file contents are byte strings. The program calls four string
  functions of the Go library on them: \<^verbatim>\<open>strings.HasSuffix\<close>, \<^verbatim>\<open>path.Split\<close>,
  \<^verbatim>\<open>strings.SplitN\<close> (always with the separator \<^verbatim>\<open>"."\<close>) and \<^verbatim>\<open>strings.Join\<close>.
\<close>

type_synonym bytes = "char list"

definition HasSuffix :: "string \<Rightarrow> string \<Rightarrow> bool" where
  "HasSuffix s suf \<longleftrightarrow>
     length suf \<le> length s \<and> drop (length s - length suf) s = suf"

text \<open>\<^verbatim>\<open>path.Split\<close> cuts right after the final slash; the directory part keeps it.\<close>

definition path_Split :: "string \<Rightarrow> string \<times> string" where
  "path_Split p =
     (let name = rev (takeWhile (\<lambda>c. c \<noteq> CHR ''/'') (rev p))
      in (take (length p - length name) p, name))"

text \<open>
  \<^verbatim>\<open>strings.SplitN(s, sep, n)\<close> for a one-byte separator: at most \<open>n\<close> pieces, the
  last one being the unsplit remainder; no piece at all when \<open>n = 0\<close>.
\<close>

fun SplitN :: "string \<Rightarrow> char \<Rightarrow> nat \<Rightarrow> string list" where
  "SplitN s sep 0 = []"
| "SplitN s sep (Suc 0) = [s]"
| "SplitN s sep (Suc (Suc n)) =
     (if sep \<in> set s
      then takeWhile (\<lambda>c. c \<noteq> sep) s # SplitN (tl (dropWhile (\<lambda>c. c \<noteq> sep) s)) sep (Suc n)
      else [s])"

fun Join :: "string list \<Rightarrow> string \<Rightarrow> string" where
  "Join [] sep = []"
| "Join [x] sep = x"
| "Join (x # y # ys) sep = x @ sep @ Join (y # ys) sep"

section \<open>The operating system as the program sees it\<close>

text \<open>
  The file system maps a path to a regular file with its contents or to a
  directory; \<open>dirents\<close> is the listing of a directory, in the order the system
  keeps it, keyed by the directory's path with its trailing slash. Symbolic links are left out, so \<^verbatim>\<open>os.Stat\<close> and
  \<^verbatim>\<open>os.Lstat\<close> agree, and two different path strings name two different nodes.
  \<open>denied\<close> stands for every reason the system may refuse a call on a path
  (permissions, a missing parent directory, a full disk); a path longer than
  \<open>PATH_MAX\<close> is refused by every call. \<open>trace\<close> records the system calls made,
  oldest first.
\<close>

datatype node = File bytes | Dir

datatype sysop = OpStat | OpLstat | OpOpen | OpRead | OpCreate | OpWrite | OpRemove | OpReadDir

datatype errno = ENOENT | EACCES | EISDIR | ENOTEMPTY | EIO | ENAMETOOLONG

datatype error =
    StdoutSuffix                  \<comment> \<open>stdout set, suffix not used\<close>
  | StdoutForce                   \<comment> \<open>stdout set, force not used\<close>
  | StdoutKeep                    \<comment> \<open>stdout set, keep is redundant\<close>
  | Corrupted string              \<comment> \<open>corrupted file or format error\<close>
  | TestFailed error              \<comment> \<open>test failed: ...\<close>
  | StdinNotStdout                \<comment> \<open>reading from stdin, can write only to stdout\<close>
  | StdinSuffix                   \<comment> \<open>reading from stdin, suffix not needed\<close>
  | IsDirectory string            \<comment> \<open>... is a directory\<close>
  | EmptySuffix                   \<comment> \<open>suffix can't be an empty string\<close>
  | CantStrip string string       \<comment> \<open>can't strip suffix .S from file F\<close>
  | AlreadySuffix string string   \<comment> \<open>Input file F already has .S suffix.\<close>
  | OutExists string              \<comment> \<open>outFile ... exists. use -f to overwrite\<close>
  | OutIsDir string               \<comment> \<open>outFile ... is a directory\<close>
  | OSError sysop string errno    \<comment> \<open>an error returned by the os package\<close>
  | CodecError string             \<comment> \<open>an error returned by the bzip2 package\<close>

datatype logline =
    LogOK string                  \<comment> \<open>F: OK\<close>
  | LogDone string                \<comment> \<open>F: done\<close>
  | LogStats string               \<comment> \<open>F: ratio, bits/byte, saved, in, out\<close>
  | LogNoSuffix string string     \<comment> \<open>file F doesn't have suffix .S\<close>
  | LogUsingOut string            \<comment> \<open>Can't guess original name for F -- using F.out\<close>
  | LogError string error         \<comment> \<open>log.Printf("%s: %v", F, err)\<close>
  | LogIsDir string               \<comment> \<open>F is a directory (use -r to process recursively)\<close>
  | LogUsage                      \<comment> \<open>the usage text\<close>
  | LogFatal string               \<comment> \<open>check args: ...\<close>

record world =
  fs :: "string \<Rightarrow> node option"
  dirents :: "string \<Rightarrow> string list"
  denied :: "sysop \<Rightarrow> string \<Rightarrow> bool"
  stdin_data :: bytes
  stdout_data :: bytes
  stderr_log :: "logline list"
  trace :: "(sysop \<times> string) list"

definition PATH_MAX :: nat where
  "PATH_MAX = 4096"

definition refused :: "world \<Rightarrow> sysop \<Rightarrow> string \<Rightarrow> errno option" where
  "refused w op p =
     (if length p > PATH_MAX then Some ENAMETOOLONG
      else if denied w op p then Some EACCES
      else None)"

definition called :: "sysop \<Rightarrow> string \<Rightarrow> world \<Rightarrow> world" where
  "called op p w = w\<lparr>trace := trace w @ [(op, p)]\<rparr>"

definition Fprintf_Stderr :: "logline \<Rightarrow> world \<Rightarrow> world" where
  "Fprintf_Stderr l w = w\<lparr>stderr_log := stderr_log w @ [l]\<rparr>"

definition os_Lstat :: "string \<Rightarrow> world \<Rightarrow> (errno + node) \<times> world" where
  "os_Lstat p w =
     (case refused w OpLstat p of
        Some e \<Rightarrow> (Inl e, called OpLstat p w)
      | None \<Rightarrow>
          (case fs w p of
             None \<Rightarrow> (Inl ENOENT, called OpLstat p w)
           | Some n \<Rightarrow> (Inr n, called OpLstat p w)))"

definition os_Stat :: "string \<Rightarrow> world \<Rightarrow> (errno + node) \<times> world" where
  "os_Stat p w =
     (case refused w OpStat p of
        Some e \<Rightarrow> (Inl e, called OpStat p w)
      | None \<Rightarrow>
          (case fs w p of
             None \<Rightarrow> (Inl ENOENT, called OpStat p w)
           | Some n \<Rightarrow> (Inr n, called OpStat p w)))"

text \<open>\<^verbatim>\<open>os.Open\<close> opens for reading; a directory can be opened, reading it fails.\<close>

definition os_Open :: "string \<Rightarrow> world \<Rightarrow> error option \<times> world" where
  "os_Open p w =
     (case refused w OpOpen p of
        Some e \<Rightarrow> (Some (OSError OpOpen p e), called OpOpen p w)
      | None \<Rightarrow>
          (case fs w p of
             None \<Rightarrow> (Some (OSError OpOpen p ENOENT), called OpOpen p w)
           | Some n \<Rightarrow> (None, called OpOpen p w)))"

text \<open>Reading an open file to its end, as \<^verbatim>\<open>io.Copy\<close> does.\<close>

definition read_file :: "string \<Rightarrow> world \<Rightarrow> error + bytes" where
  "read_file p w =
     (case fs w p of
        Some (File d) \<Rightarrow> if denied w OpRead p then Inl (OSError OpRead p EIO) else Inr d
      | Some Dir \<Rightarrow> Inl (OSError OpRead p EISDIR)
      | None \<Rightarrow> Inl (OSError OpRead p EIO))"

text \<open>
  \<^verbatim>\<open>os.Create\<close> truncates an existing file and enters a new one into its
  directory's listing.
\<close>

definition os_Create :: "string \<Rightarrow> world \<Rightarrow> error option \<times> world" where
  "os_Create p w =
     (case refused w OpCreate p of
        Some e \<Rightarrow> (Some (OSError OpCreate p e), called OpCreate p w)
      | None \<Rightarrow>
          (case fs w p of
             Some Dir \<Rightarrow> (Some (OSError OpCreate p EISDIR), called OpCreate p w)
           | Some (File d) \<Rightarrow> (None, called OpCreate p (w\<lparr>fs := (fs w)(p \<mapsto> File [])\<rparr>))
           | None \<Rightarrow>
               (let (d, n) = path_Split p
                in (None, called OpCreate p
                      (w\<lparr>fs := (fs w)(p \<mapsto> File []),
                         dirents := (dirents w)(d := dirents w d @ [n])\<rparr>)))))"

text \<open>Writing a whole stream to an open output file.\<close>

definition write_file :: "string \<Rightarrow> bytes \<Rightarrow> world \<Rightarrow> error option \<times> world" where
  "write_file p d w =
     (if denied w OpWrite p then (Some (OSError OpWrite p EIO), w)
      else (None, w\<lparr>fs := (fs w)(p \<mapsto> File d)\<rparr>))"

text \<open>
  \<^verbatim>\<open>readDirNames\<close> of \<^verbatim>\<open>filepath.Walk\<close>: the names in a directory, sorted as
  \<^verbatim>\<open>sort.Strings\<close> sorts them, byte by byte.
\<close>

definition readDirNames :: "string \<Rightarrow> world \<Rightarrow> (errno + string list) \<times> world" where
  "readDirNames p w =
     (case refused w OpReadDir p of
        Some e \<Rightarrow> (Inl e, called OpReadDir p w)
      | None \<Rightarrow> (Inr (sort (dirents w (p @ ''/''))), called OpReadDir p w))"

definition os_Remove :: "string \<Rightarrow> world \<Rightarrow> error option \<times> world" where
  "os_Remove p w =
     (case refused w OpRemove p of
        Some e \<Rightarrow> (Some (OSError OpRemove p e), called OpRemove p w)
      | None \<Rightarrow>
          (case fs w p of
             None \<Rightarrow> (Some (OSError OpRemove p ENOENT), called OpRemove p w)
           | Some n \<Rightarrow>
               if n = Dir \<and> dirents w (p @ ''/'') \<noteq> []
               then (Some (OSError OpRemove p ENOTEMPTY), called OpRemove p w)
               else (let (d, nm) = path_Split p
                     in (None, called OpRemove p
                           (w\<lparr>fs := (fs w)(p := None),
                              dirents := (dirents w)(d := removeAll nm (dirents w d))\<rparr>)))))"

section \<open>The codec, an external collaborator\<close>

text \<open>
  The bzip2 package is not part of the program. It is a parameter: the error of
  each constructor, the compressed stream of an input at a level, and what the
  decoder delivers for a stream (the bytes it produced and the error, if any,
  it stopped with).
\<close>

record codec =
  NewReader_err :: "string option"
  NewWriter_err :: "int \<Rightarrow> string option"
  encode :: "int \<Rightarrow> bytes \<Rightarrow> bytes"
  decode :: "bytes \<Rightarrow> bytes \<times> string option"

section \<open>Command-line flags\<close>

text \<open>
  The flag variables of the program after parsing. \<open>suffix_set\<close> is
  \<^verbatim>\<open>setByUser("S")\<close>, \<open>cores_set\<close> is \<^verbatim>\<open>setByUser("cores")\<close>, \<open>level_set\<close> is
  \<^verbatim>\<open>setByUser("l")\<close> and \<open>digit_set i\<close> is \<^verbatim>\<open>setByUser(strconv.Itoa(i))\<close>;
  \<open>stdin\<close> is the global that \<^verbatim>\<open>main\<close> sets when no file argument is given.
\<close>

record flags =
  stdout :: bool
  decompress :: bool
  force :: bool
  help_flag :: bool
  verbose :: bool
  keep :: bool
  suffix :: string
  suffix_set :: bool
  cores :: int
  cores_set :: bool
  test :: bool
  level :: int
  level_set :: bool
  digit_set :: "int \<Rightarrow> bool"
  recursive :: bool
  stdin :: bool

section \<open>processFile\<close>

text \<open>
  \<^verbatim>\<open>processFile\<close> returns \<^verbatim>\<open>nil\<close> or an error; the model returns \<open>None\<close> or
  \<open>Some\<close> error together with the world it leaves. Its parts follow the source
  from top to bottom.
\<close>

text \<open>Lines 75--83: the conflicting-flag checks.\<close>

definition flag_conflict :: "flags \<Rightarrow> error option" where
  "flag_conflict fl =
     (if stdout fl \<and> suffix_set fl then Some StdoutSuffix
      else if stdout fl \<and> force fl then Some StdoutForce
      else if stdout fl \<and> keep fl then Some StdoutKeep
      else None)"

text \<open>
  The input stream of a job: standard input for the path \<^verbatim>\<open>"-"\<close>, the opened
  file otherwise. Standard input is consumed by reading it.
\<close>

definition open_input :: "string \<Rightarrow> world \<Rightarrow> error option \<times> world" where
  "open_input inFilePath w =
     (if inFilePath = ''-'' then (None, w) else os_Open inFilePath w)"

definition read_input :: "string \<Rightarrow> world \<Rightarrow> (error + bytes) \<times> world" where
  "read_input inFilePath w =
     (if inFilePath = ''-'' then (Inr (stdin_data w), w\<lparr>stdin_data := []\<rparr>)
      else (read_file inFilePath w, w))"

text \<open>
  Lines 88--116, test mode. A failure of \<^verbatim>\<open>os.Open\<close> is returned as it is; a
  failure while copying (reading the file, decoding it) is wrapped.
\<close>

definition test_file :: "codec \<Rightarrow> flags \<Rightarrow> string \<Rightarrow> world \<Rightarrow> error option \<times> world" where
  "test_file cd fl inFilePath w =
     (case open_input inFilePath w of
        (Some e, w1) \<Rightarrow> (Some e, w1)
      | (None, w1) \<Rightarrow>
          (case NewReader_err cd of
             Some e \<Rightarrow> (Some (Corrupted e), w1)
           | None \<Rightarrow>
               (case read_input inFilePath w1 of
                  (Inl e, w2) \<Rightarrow> (Some (TestFailed e), w2)
                | (Inr d, w2) \<Rightarrow>
                    (case snd (decode cd d) of
                       Some e \<Rightarrow> (Some (TestFailed (CodecError e)), w2)
                     | None \<Rightarrow>
                         (None, if verbose fl then Fprintf_Stderr (LogOK inFilePath) w2
                                else w2)))))"

text \<open>
  Lines 144--170: the name of the output file. The warning of the fallback goes
  to standard error.
\<close>

definition strip_last :: "string \<Rightarrow> string" where
  "strip_last outFileName =
     (let nstr = SplitN outFileName (CHR ''.'') (length outFileName)
      in Join (take (length nstr - 1) nstr) ''.'')"

definition outName :: "flags \<Rightarrow> string \<Rightarrow> world \<Rightarrow> (error + string) \<times> world" where
  "outName fl inFilePath w =
     (let fext = ''.'' @ suffix fl in
      if decompress fl then
        (let (outFileDir, outFileName) = path_Split inFilePath in
         if HasSuffix outFileName fext then
           (if length outFileName > length fext
            then (Inr (outFileDir @ strip_last outFileName), w)
            else (Inl (CantStrip (suffix fl) inFilePath), w))
         else (Inr (outFileDir @ outFileName @ ''.out''),
               Fprintf_Stderr (LogUsingOut inFilePath)
                 (Fprintf_Stderr (LogNoSuffix inFilePath (suffix fl)) w)))
      else if HasSuffix inFilePath fext then (Inl (AlreadySuffix inFilePath (suffix fl)), w)
      else (Inr (inFilePath @ ''.'' @ suffix fl), w))"

text \<open>Lines 172--185: an output file that is already there.\<close>

definition check_overwrite :: "flags \<Rightarrow> string \<Rightarrow> world \<Rightarrow> (error + string) \<times> world" where
  "check_overwrite fl outFilePath w =
     (case os_Lstat outFilePath w of
        (Inl e, w1) \<Rightarrow> (Inr outFilePath, w1)
      | (Inr f, w1) \<Rightarrow>
          if \<not> force fl then (Inl (OutExists outFilePath), w1)
          else if f = Dir then (Inl (OutIsDir outFilePath), w1)
          else (case os_Remove outFilePath w1 of
                  (Some e, w2) \<Rightarrow> (Inl e, w2)
                | (None, w2) \<Rightarrow> (Inr outFilePath, w2)))"

text \<open>
  Lines 119--187: input source and output destination. The result is
  \<^verbatim>\<open>outFilePath\<close>, which stays empty when the output is standard output.
  (\<^verbatim>\<open>os.Lstat\<close> never returns a nil info with a nil error, so the branch of line
  131 cannot be taken.)
\<close>

definition resolve :: "flags \<Rightarrow> string \<Rightarrow> world \<Rightarrow> (error + string) \<times> world" where
  "resolve fl inFilePath w =
     (if stdin fl then
        (if \<not> stdout fl then (Inl StdinNotStdout, w)
         else if suffix_set fl then (Inl StdinSuffix, w)
         else (Inr [], w))
      else
        (case os_Lstat inFilePath w of
           (Inl e, w1) \<Rightarrow> (Inl (OSError OpLstat inFilePath e), w1)
         | (Inr f, w1) \<Rightarrow>
             if f = Dir then (Inl (IsDirectory inFilePath), w1)
             else if stdout fl then (Inr [], w1)
             else if suffix fl = [] then (Inl EmptySuffix, w1)
             else (case outName fl inFilePath w1 of
                     (Inl e, w2) \<Rightarrow> (Inl e, w2)
                   | (Inr outFilePath, w2) \<Rightarrow> check_overwrite fl outFilePath w2)))"

text \<open>
  The producer goroutine of a transfer (lines 196--216 and 249--291) and the
  consumer run concurrently, joined by a pipe. The model runs the producer's
  opening and reading first and hands the consumer either the bytes or the error
  the producer closed the pipe with; that error then is the error of the
  consumer's copy.
\<close>

definition producer_read :: "string \<Rightarrow> world \<Rightarrow> (error + bytes) \<times> world" where
  "producer_read inFilePath w =
     (case open_input inFilePath w of
        (Some e, w1) \<Rightarrow> (Inl e, w1)
      | (None, w1) \<Rightarrow> read_input inFilePath w1)"

definition open_output :: "flags \<Rightarrow> string \<Rightarrow> world \<Rightarrow> error option \<times> world" where
  "open_output fl outFilePath w =
     (if stdout fl then (None, w) else os_Create outFilePath w)"

definition write_output :: "flags \<Rightarrow> string \<Rightarrow> bytes \<Rightarrow> world \<Rightarrow> error option \<times> world" where
  "write_output fl outFilePath d w =
     (if stdout fl then (None, w\<lparr>stdout_data := stdout_data w @ d\<rparr>)
      else write_file outFilePath d w)"

text \<open>Lines 195--247: decompression. The decoder sits behind the pipe.\<close>

definition transfer_decompress :: "codec \<Rightarrow> flags \<Rightarrow> string \<Rightarrow> string \<Rightarrow> world \<Rightarrow> error option \<times> world" where
  "transfer_decompress cd fl inFilePath outFilePath w =
     (case producer_read inFilePath w of (src, w1) \<Rightarrow>
        (case NewReader_err cd of
           Some e \<Rightarrow> (Some (CodecError e), w1)
         | None \<Rightarrow>
             (case open_output fl outFilePath w1 of
                (Some e, w2) \<Rightarrow> (Some e, w2)
              | (None, w2) \<Rightarrow>
                  (case src of
                     Inl e \<Rightarrow> (Some e, w2)
                   | Inr d \<Rightarrow>
                       (case write_output fl outFilePath (fst (decode cd d)) w2 of
                          (Some e, w3) \<Rightarrow> (Some e, w3)
                        | (None, w3) \<Rightarrow>
                            (case snd (decode cd d) of
                               Some e \<Rightarrow> (Some (CodecError e), w3)
                             | None \<Rightarrow>
                                 (None, if verbose fl \<and> \<not> stdout fl
                                        then Fprintf_Stderr (LogDone inFilePath) w3
                                        else w3)))))))"

text \<open>Lines 248--311: compression. The encoder sits before the pipe.\<close>

definition transfer_compress :: "codec \<Rightarrow> flags \<Rightarrow> string \<Rightarrow> string \<Rightarrow> world \<Rightarrow> error option \<times> world" where
  "transfer_compress cd fl inFilePath outFilePath w =
     (case producer_read inFilePath w of (src, w1) \<Rightarrow>
        (case open_output fl outFilePath w1 of
           (Some e, w2) \<Rightarrow> (Some e, w2)
         | (None, w2) \<Rightarrow>
             (case src of
                Inl e \<Rightarrow> (Some e, w2)
              | Inr d \<Rightarrow>
                  (case NewWriter_err cd (level fl) of
                     Some e \<Rightarrow> (Some (CodecError e), w2)
                   | None \<Rightarrow>
                       write_output fl outFilePath (encode cd (level fl) d)
                         (if verbose fl then Fprintf_Stderr (LogStats inFilePath) w2 else w2)))))"

definition transfer :: "codec \<Rightarrow> flags \<Rightarrow> string \<Rightarrow> string \<Rightarrow> world \<Rightarrow> error option \<times> world" where
  "transfer cd fl inFilePath outFilePath w =
     (if decompress fl then transfer_decompress cd fl inFilePath outFilePath w
      else transfer_compress cd fl inFilePath outFilePath w)"

text \<open>Lines 313--321: the original file goes away.\<close>

definition remove_original :: "flags \<Rightarrow> string \<Rightarrow> world \<Rightarrow> error option \<times> world" where
  "remove_original fl inFilePath w =
     (if \<not> stdout fl \<and> \<not> keep fl \<and> inFilePath \<noteq> ''-'' then os_Remove inFilePath w
      else (None, w))"

definition processFile :: "codec \<Rightarrow> flags \<Rightarrow> string \<Rightarrow> world \<Rightarrow> error option \<times> world" where
  "processFile cd fl inFilePath w =
     (case flag_conflict fl of
        Some e \<Rightarrow> (Some e, w)
      | None \<Rightarrow>
          if test fl then test_file cd fl inFilePath w
          else (case resolve fl inFilePath w of
                  (Inl e, w1) \<Rightarrow> (Some e, w1)
                | (Inr outFilePath, w1) \<Rightarrow>
                    (case transfer cd fl inFilePath outFilePath w1 of
                       (Some e, w2) \<Rightarrow> (Some e, w2)
                     | (None, w2) \<Rightarrow> remove_original fl inFilePath w2)))"

section \<open>main\<close>

text \<open>
  The state of a run: the shared flag \<^verbatim>\<open>hasErrors\<close> and the world. Every place
  that records a failure prints a line with \<^verbatim>\<open>log.Printf\<close> and sets the flag.
\<close>

type_synonym run = "bool \<times> world"

definition record_failure :: "logline \<Rightarrow> run \<Rightarrow> run" where
  "record_failure l r = (True, Fprintf_Stderr l (snd r))"

definition run_processFile :: "codec \<Rightarrow> flags \<Rightarrow> string \<Rightarrow> run \<Rightarrow> run" where
  "run_processFile cd fl f r =
     (case processFile cd fl f (snd r) of
        (Some e, w1) \<Rightarrow> record_failure (LogError f e) (fst r, w1)
      | (None, w1) \<Rightarrow> (fst r, w1))"

text \<open>
  Lines 442--459, the function handed to \<^verbatim>\<open>filepath.Walk\<close>. It returns \<^verbatim>\<open>nil\<close> on
  every path, so the walk never stops early and itself returns \<^verbatim>\<open>nil\<close>.
\<close>

definition walkFn :: "codec \<Rightarrow> flags \<Rightarrow> string \<Rightarrow> node option \<Rightarrow> error option \<Rightarrow> run \<Rightarrow> run" where
  "walkFn cd fl path fi err r =
     (case err of
        Some e \<Rightarrow> record_failure (LogError path e) r
      | None \<Rightarrow>
          (case fi of
             Some (File d) \<Rightarrow> run_processFile cd fl path r
           | _ \<Rightarrow> r))"

text \<open>
  \<^verbatim>\<open>filepath.Walk\<close> of the Go library: a directory's names are read once, before
  its entries are visited; each entry is looked up when its turn comes. A name
  is joined to its directory with a slash (the paths are taken as clean). The
  walk ends because the system refuses a path longer than \<open>PATH_MAX\<close>. Since the
  function handed to it never returns an error, neither does the walk, and
  lines 460--465 are never reached.
\<close>

function walk :: "codec \<Rightarrow> flags \<Rightarrow> string \<Rightarrow> node \<Rightarrow> run \<Rightarrow> run"
  and walk_names :: "codec \<Rightarrow> flags \<Rightarrow> string \<Rightarrow> string list \<Rightarrow> run \<Rightarrow> run" where
  "walk cd fl path info r =
     (if info \<noteq> Dir then walkFn cd fl path (Some info) None r
      else case readDirNames path (snd r) of
             (Inl e, w1) \<Rightarrow>
               walkFn cd fl path (Some info) (Some (OSError OpReadDir path e)) (fst r, w1)
           | (Inr names, w1) \<Rightarrow>
               walk_names cd fl path names (walkFn cd fl path (Some info) None (fst r, w1)))"
| "walk_names cd fl path [] r = r"
| "walk_names cd fl path (name # names) r =
     (let filename = path @ ''/'' @ name in
      case os_Lstat filename (snd r) of
        (Inl e, w1) \<Rightarrow>
          walk_names cd fl path names
            (walkFn cd fl filename None (Some (OSError OpLstat filename e)) (fst r, w1))
      | (Inr fileInfo, w1) \<Rightarrow>
          walk_names cd fl path names (walk cd fl filename fileInfo (fst r, w1)))"
  by pat_completeness auto
termination
  by (relation "measures
        [\<lambda>x. case x of Inl (cd, fl, path, info, r) \<Rightarrow> Suc PATH_MAX - length path
                     | Inr (cd, fl, path, names, r) \<Rightarrow> Suc PATH_MAX - length path,
         \<lambda>x. case x of Inl (cd, fl, path, info, r) \<Rightarrow> Suc 0
                     | Inr (cd, fl, path, names, r) \<Rightarrow> 0,
         \<lambda>x. case x of Inl (cd, fl, path, info, r) \<Rightarrow> 0
                     | Inr (cd, fl, path, names, r) \<Rightarrow> length names]")
     (auto simp: os_Lstat_def refused_def split: if_splits option.splits)

definition Walk :: "codec \<Rightarrow> flags \<Rightarrow> string \<Rightarrow> run \<Rightarrow> run" where
  "Walk cd fl root r =
     (case os_Lstat root (snd r) of
        (Inl e, w1) \<Rightarrow> walkFn cd fl root None (Some (OSError OpLstat root e)) (fst r, w1)
      | (Inr info, w1) \<Rightarrow> walk cd fl root info (fst r, w1))"

text \<open>Lines 419--480: what one goroutine does between taking and giving back its slot.\<close>

definition job :: "codec \<Rightarrow> flags \<Rightarrow> string \<Rightarrow> run \<Rightarrow> run" where
  "job cd fl file r =
     (if file = ''-'' then run_processFile cd fl file r
      else case os_Stat file (snd r) of
             (Inl e, w1) \<Rightarrow> record_failure (LogError file (OSError OpStat file e)) (fst r, w1)
           | (Inr info, w1) \<Rightarrow>
               if info = Dir then
                 (if recursive fl then Walk cd fl file (fst r, w1)
                  else record_failure (LogIsDir file) (fst r, w1))
               else run_processFile cd fl file (fst r, w1))"

text \<open>
  The goroutines of \<^verbatim>\<open>main\<close> are run one after the other, in the order given.
\<close>

fun run_jobs :: "codec \<Rightarrow> flags \<Rightarrow> string list \<Rightarrow> run \<Rightarrow> run" where
  "run_jobs cd fl [] r = r"
| "run_jobs cd fl (file # files) r = run_jobs cd fl files (job cd fl file r)"

text \<open>
  What one job does when it starts in the world \<open>w\<close>: whether it records a
  failure, and the world it leaves.
\<close>

definition job_fails :: "codec \<Rightarrow> flags \<Rightarrow> string \<Rightarrow> world \<Rightarrow> bool" where
  "job_fails cd fl file w = fst (job cd fl file (False, w))"

definition world_after :: "codec \<Rightarrow> flags \<Rightarrow> string \<Rightarrow> world \<Rightarrow> world" where
  "world_after cd fl file w = snd (job cd fl file (False, w))"

fun some_job_fails :: "codec \<Rightarrow> flags \<Rightarrow> string list \<Rightarrow> world \<Rightarrow> bool" where
  "some_job_fails cd fl [] w = False"
| "some_job_fails cd fl (file # files) w =
     (job_fails cd fl file w \<or> some_job_fails cd fl files (world_after cd fl file w))"

text \<open>
  The lines that \<^verbatim>\<open>main\<close> prints with \<^verbatim>\<open>log.Printf\<close> when a job, an entry of a
  walk or the look-up of an argument fails, and how many of them standard error
  holds.
\<close>

fun is_failure :: "logline \<Rightarrow> bool" where
  "is_failure (LogError f e) = True"
| "is_failure (LogIsDir f) = True"
| "is_failure l = False"

definition failures :: "world \<Rightarrow> nat" where
  "failures w = length (filter is_failure (stderr_log w))"

text \<open>
  A step of a run records its failures when the world it leaves does not depend
  on the flag it finds, the flag it leaves is set exactly when it was set
  before or the step alone sets it, and the step alone sets it exactly when it
  adds a failure line to standard error.
\<close>

definition records :: "(run \<Rightarrow> run) \<Rightarrow> bool" where
  "records f \<longleftrightarrow>
     (\<forall>h w. snd (f (h, w)) = snd (f (False, w))
          \<and> fst (f (h, w)) = (h \<or> fst (f (False, w)))
          \<and> failures w \<le> failures (snd (f (False, w)))
          \<and> fst (f (False, w)) = (failures w < failures (snd (f (False, w)))))"

text \<open>
  \<^verbatim>\<open>main\<close> after \<^verbatim>\<open>getopt.Parse\<close>: \<open>args\<close> are the file arguments, \<open>isatty\<close> tells
  whether standard output is a terminal, \<open>numCPU\<close> is \<^verbatim>\<open>runtime.NumCPU()\<close>, and
  \<open>sched\<close> is the order in which the scheduler lets the goroutines through. The
  result is the exit status of the process and the world it leaves.
\<close>

definition usage :: "world \<Rightarrow> world" where
  "usage w = Fprintf_Stderr LogUsage w"

text \<open>\<^verbatim>\<open>exit\<close> prints the usage and ends the process through \<^verbatim>\<open>log.Fatalf\<close>, status 1.\<close>

definition exit_fatal :: "string \<Rightarrow> world \<Rightarrow> int \<times> world" where
  "exit_fatal msg w = (1, Fprintf_Stderr (LogFatal msg) (usage w))"

text \<open>Lines 361--368.\<close>

definition digit_level :: "flags \<Rightarrow> flags" where
  "digit_level fl =
     (if \<not> level_set fl then
        (case filter (digit_set fl) [1, 2, 3, 4, 5, 6, 7, 8, 9] of
           [] \<Rightarrow> fl
         | i # _ \<Rightarrow> fl\<lparr>level := i\<rparr>)
      else fl)"

text \<open>Lines 387--407: what the flags are when the jobs start.\<close>

definition job_flags :: "flags \<Rightarrow> string list \<Rightarrow> bool \<Rightarrow> int \<Rightarrow> flags" where
  "job_flags fl args isatty numCPU =
     (let fl1 = fl\<lparr>stdin := (args = [])\<rparr>;
          fl2 = (if \<not> isatty \<and> stdin fl1 \<and> \<not> stdout fl1 then fl1\<lparr>stdout := True\<rparr> else fl1)
      in if cores fl2 \<le> 0 then fl2\<lparr>cores := numCPU\<rparr> else fl2)"

definition job_files :: "string list \<Rightarrow> string list" where
  "job_files args = (if args = [] then [''-''] else args)"

definition main :: "codec \<Rightarrow> flags \<Rightarrow> string list \<Rightarrow> bool \<Rightarrow> int \<Rightarrow>
    (string list \<Rightarrow> string list) \<Rightarrow> world \<Rightarrow> int \<times> world" where
  "main cd fl0 args isatty numCPU sched w =
     (let fl = digit_level fl0 in
      if level fl < 1 \<or> level fl > 9
      then exit_fatal ''invalid compression level: must be between 1 and 9'' w
      else if help_flag fl then (0, usage w)
      else if cores_set fl \<and> (cores fl < 1 \<or> cores fl > 32)
      then exit_fatal ''invalid number of cores'' w
      else (case run_jobs cd (job_flags fl args isatty numCPU) (sched (job_files args)) (False, w) of
              (hasErrors, w1) \<Rightarrow> (if hasErrors then 1 else 0, w1)))"

section \<open>The units of work of a run\<close>

text \<open>
  What a run is to do, told as the specification tells it, without the flag
  \<^verbatim>\<open>hasErrors\<close>: every argument and every entry of a traversal is a unit of work
  that succeeds or fails, and a failure is reported on standard error and
  nothing else. An argument \<^verbatim>\<open>-\<close> is a job at once. An argument that cannot be
  looked up fails. A directory fails when recursion is off; when it is on, it
  is traversed in full: every regular file found is a job, and an entry or a
  directory that cannot be read fails without ending the traversal. Every other
  argument is a job. A job fails when \<^verbatim>\<open>processFile\<close> returns an error.
\<close>

datatype outcome = Succeeded string | Failed string

fun failed :: "outcome \<Rightarrow> bool" where
  "failed (Failed f) = True"
| "failed (Succeeded f) = False"

definition file_job :: "codec \<Rightarrow> flags \<Rightarrow> string \<Rightarrow> world \<Rightarrow> outcome list \<times> world" where
  "file_job cd fl f w =
     (case processFile cd fl f w of
        (Some e, w1) \<Rightarrow> ([Failed f], Fprintf_Stderr (LogError f e) w1)
      | (None, w1) \<Rightarrow> ([Succeeded f], w1))"

definition lookup_failed :: "string \<Rightarrow> logline \<Rightarrow> world \<Rightarrow> outcome list \<times> world" where
  "lookup_failed f l w = ([Failed f], Fprintf_Stderr l w)"

function entry_outcomes :: "codec \<Rightarrow> flags \<Rightarrow> string \<Rightarrow> node \<Rightarrow> world \<Rightarrow> outcome list \<times> world"
  and names_outcomes :: "codec \<Rightarrow> flags \<Rightarrow> string \<Rightarrow> string list \<Rightarrow> world \<Rightarrow> outcome list \<times> world" where
  "entry_outcomes cd fl path info w =
     (if info \<noteq> Dir then file_job cd fl path w
      else case readDirNames path w of
             (Inl e, w1) \<Rightarrow> lookup_failed path (LogError path (OSError OpReadDir path e)) w1
           | (Inr names, w1) \<Rightarrow> names_outcomes cd fl path names w1)"
| "names_outcomes cd fl path [] w = ([], w)"
| "names_outcomes cd fl path (name # names) w =
     (let filename = path @ ''/'' @ name;
          first = (case os_Lstat filename w of
                     (Inl e, w1) \<Rightarrow>
                       lookup_failed filename (LogError filename (OSError OpLstat filename e)) w1
                   | (Inr fileInfo, w1) \<Rightarrow> entry_outcomes cd fl filename fileInfo w1);
          rest = names_outcomes cd fl path names (snd first)
      in (fst first @ fst rest, snd rest))"
  by pat_completeness auto
termination
  by (relation "measures
        [\<lambda>x. case x of Inl (cd, fl, path, info, w) \<Rightarrow> Suc PATH_MAX - length path
                     | Inr (cd, fl, path, names, w) \<Rightarrow> Suc PATH_MAX - length path,
         \<lambda>x. case x of Inl (cd, fl, path, info, w) \<Rightarrow> Suc 0
                     | Inr (cd, fl, path, names, w) \<Rightarrow> 0,
         \<lambda>x. case x of Inl (cd, fl, path, info, w) \<Rightarrow> 0
                     | Inr (cd, fl, path, names, w) \<Rightarrow> length names]")
     (auto simp: os_Lstat_def refused_def split: if_splits option.splits)

definition tree_outcomes :: "codec \<Rightarrow> flags \<Rightarrow> string \<Rightarrow> world \<Rightarrow> outcome list \<times> world" where
  "tree_outcomes cd fl root w =
     (case os_Lstat root w of
        (Inl e, w1) \<Rightarrow> lookup_failed root (LogError root (OSError OpLstat root e)) w1
      | (Inr info, w1) \<Rightarrow> entry_outcomes cd fl root info w1)"

definition job_outcomes :: "codec \<Rightarrow> flags \<Rightarrow> string \<Rightarrow> world \<Rightarrow> outcome list \<times> world" where
  "job_outcomes cd fl f w =
     (if f = ''-'' then file_job cd fl f w
      else case os_Stat f w of
             (Inl e, w1) \<Rightarrow> lookup_failed f (LogError f (OSError OpStat f e)) w1
           | (Inr info, w1) \<Rightarrow>
               if info = Dir then
                 (if recursive fl then tree_outcomes cd fl f w1
                  else lookup_failed f (LogIsDir f) w1)
               else file_job cd fl f w1)"

fun run_outcomes :: "codec \<Rightarrow> flags \<Rightarrow> string list \<Rightarrow> world \<Rightarrow> outcome list \<times> world" where
  "run_outcomes cd fl [] w = ([], w)"
| "run_outcomes cd fl (f # files) w =
     (let first = job_outcomes cd fl f w;
          rest = run_outcomes cd fl files (snd first)
      in (fst first @ fst rest, snd rest))"

section \<open>The gate\<close>

text \<open>
  Lines 413--422. \<^verbatim>\<open>sem\<close> is a buffered channel of capacity \<^verbatim>\<open>*cores\<close>: a send
  is possible while the buffer holds fewer elements than its capacity, a receive
  while it holds one. Each goroutine of \<^verbatim>\<open>main\<close> sends before its job and
  receives, by a deferred call, after it. In between, every transfer of
  \<^verbatim>\<open>processFile\<close> starts one producer goroutine (lines 196 and 249). Nothing
  waits for a producer: when the consumer fails, \<^verbatim>\<open>processFile\<close> closes its end
  of the pipe and returns (lines 221, 232, 240, 301 and 309) while the producer
  may still be opening, reading or encoding its input, and the deferred receive
  then gives the slot back.

  The state of the dispatcher is the number of elements in the buffer and, for
  every goroutine of \<^verbatim>\<open>main\<close>, where it stands and how many of the producers it
  has started are still running. A step is one goroutine passing its send or
  its receive, starting a producer, or one producer coming to its end.
\<close>

datatype pc = Queued | Admitted | Finished

record gate =
  sem_len :: nat
  jobs :: "(pc \<times> nat) list"

definition sem_cap :: "flags \<Rightarrow> nat" where
  "sem_cap fl = nat (cores fl)"

inductive gate_step :: "nat \<Rightarrow> gate \<Rightarrow> gate \<Rightarrow> bool" for cap :: nat where
  send: "i < length (jobs g) \<Longrightarrow> fst (jobs g ! i) = Queued \<Longrightarrow> sem_len g < cap \<Longrightarrow>
     gate_step cap g
       \<lparr>sem_len = Suc (sem_len g), jobs = (jobs g)[i := (Admitted, snd (jobs g ! i))]\<rparr>"
| spawn: "i < length (jobs g) \<Longrightarrow> fst (jobs g ! i) = Admitted \<Longrightarrow>
     gate_step cap g
       \<lparr>sem_len = sem_len g, jobs = (jobs g)[i := (Admitted, Suc (snd (jobs g ! i)))]\<rparr>"
| finish: "i < length (jobs g) \<Longrightarrow> 0 < snd (jobs g ! i) \<Longrightarrow>
     gate_step cap g
       \<lparr>sem_len = sem_len g, jobs = (jobs g)[i := (fst (jobs g ! i), snd (jobs g ! i) - 1)]\<rparr>"
| recv: "i < length (jobs g) \<Longrightarrow> fst (jobs g ! i) = Admitted \<Longrightarrow> 0 < sem_len g \<Longrightarrow>
     gate_step cap g
       \<lparr>sem_len = sem_len g - 1, jobs = (jobs g)[i := (Finished, snd (jobs g ! i))]\<rparr>"

inductive gate_reach :: "nat \<Rightarrow> nat \<Rightarrow> gate \<Rightarrow> bool" for cap :: nat and n :: nat where
  start: "gate_reach cap n \<lparr>sem_len = 0, jobs = replicate n (Queued, 0)\<rparr>"
| step: "gate_reach cap n g \<Longrightarrow> gate_step cap g g' \<Longrightarrow> gate_reach cap n g'"

code_pred gate_step .

code_pred gate_reach .

text \<open>The jobs that hold a slot.\<close>

definition admitted :: "gate \<Rightarrow> nat" where
  "admitted g = length (filter (\<lambda>j. fst j = Admitted) (jobs g))"

text \<open>
  The jobs that may be transferring data when the producer is counted with its
  job: those that hold a slot and those of which a producer still runs.
\<close>

definition transferring :: "gate \<Rightarrow> nat" where
  "transferring g = length (filter (\<lambda>j. fst j = Admitted \<or> 0 < snd j) (jobs g))"

section \<open>Example inputs\<close>

text \<open>The values of the flags when the command line sets none (lines 30--41).\<close>

definition default_flags :: flags where
  "default_flags =
     \<lparr>stdout = False, decompress = False, force = False, help_flag = False,
      verbose = False, keep = False, suffix = ''bz2'', suffix_set = False,
      cores = 0, cores_set = False, test = False, level = 9, level_set = False,
      digit_set = (\<lambda>i. False), recursive = False, stdin = False\<rparr>"

text \<open>
  A stand-in codec for running the model: it puts one byte in front of its
  input, and decoding takes that byte off again.
\<close>

definition toy_codec :: codec where
  "toy_codec =
     \<lparr>NewReader_err = None,
      NewWriter_err = (\<lambda>l. None),
      encode = (\<lambda>l d. CHR ''B'' # d),
      decode = (\<lambda>d. case d of
                       [] \<Rightarrow> ([], Some ''unexpected EOF'')
                     | c # r \<Rightarrow> if c = CHR ''B'' then (r, None) else ([], Some ''bad magic''))\<rparr>"

definition example_fs :: "string \<Rightarrow> node option" where
  "example_fs =
     [''report.txt'' \<mapsto> File ''hello world'',
      ''old.bz2'' \<mapsto> File ''Bold data'',
      ''old'' \<mapsto> File ''precious'',
      ''notes'' \<mapsto> File ''Bnotes'',
      ''a.tar.bz2'' \<mapsto> File ''Barchive'',
      ''missing.bz2'' \<mapsto> File ''Bgone'',
      ''dir'' \<mapsto> Dir,
      ''dir/x'' \<mapsto> File ''x'']"

definition example_world :: world where
  "example_world =
     \<lparr>fs = example_fs,
      dirents = (\<lambda>d. if d = ''dir/'' then [''x''] else []),
      denied = (\<lambda>op p. op = OpRemove \<and> p = ''missing.bz2''),
      stdin_data = ''typed'',
      stdout_data = [],
      stderr_log = [],
      trace = []\<rparr>"

text \<open>A directory with a file that can be compressed and one that cannot.\<close>

definition tree_world :: world where
  "tree_world =
     \<lparr>fs = [''tree'' \<mapsto> Dir, ''tree/a'' \<mapsto> File ''data'', ''tree/b.bz2'' \<mapsto> File ''Bzip''],
      dirents = (\<lambda>d. if d = ''tree/'' then [''b.bz2'', ''a''] else []),
      denied = (\<lambda>op p. False),
      stdin_data = [],
      stdout_data = [],
      stderr_log = [],
      trace = []\<rparr>"

section \<open>Facts about the string utilities\<close>

lemma HasSuffix_iff: "HasSuffix s suf \<longleftrightarrow> (\<exists>pre. s = pre @ suf)"
proof
  assume "HasSuffix s suf"
  then have "s = take (length s - length suf) s @ suf"
    by (metis HasSuffix_def append_take_drop_id)
  then show "\<exists>pre. s = pre @ suf" ..
next
  assume "\<exists>pre. s = pre @ suf"
  then show "HasSuffix s suf" by (auto simp: HasSuffix_def)
qed

lemma path_Split_parts:
  "fst (path_Split p) @ snd (path_Split p) = p"
  "CHR ''/'' \<notin> set (snd (path_Split p))"
proof -
  let ?name = "rev (takeWhile (\<lambda>c. c \<noteq> CHR ''/'') (rev p))"
  have "rev p = takeWhile (\<lambda>c. c \<noteq> CHR ''/'') (rev p) @ dropWhile (\<lambda>c. c \<noteq> CHR ''/'') (rev p)"
    by simp
  then have "p = rev (dropWhile (\<lambda>c. c \<noteq> CHR ''/'') (rev p)) @ ?name"
    by (metis rev_append rev_rev_ident)
  then have "take (length p - length ?name) p = rev (dropWhile (\<lambda>c. c \<noteq> CHR ''/'') (rev p))"
    by (metis add_diff_cancel_right' append_eq_conv_conj length_append)
  then show "fst (path_Split p) @ snd (path_Split p) = p"
    using \<open>p = _ @ ?name\<close> by (simp add: path_Split_def Let_def)
  show "CHR ''/'' \<notin> set (snd (path_Split p))"
    by (auto simp: path_Split_def Let_def dest: set_takeWhileD)
qed

lemma path_Split_append:
  assumes "CHR ''/'' \<notin> set s"
  shows "path_Split (p @ s) = (fst (path_Split p), snd (path_Split p) @ s)"
proof -
  have tw: "takeWhile (\<lambda>c. c \<noteq> CHR ''/'') (rev s @ rev p) = rev s @ takeWhile (\<lambda>c. c \<noteq> CHR ''/'') (rev p)"
    using assms by (intro takeWhile_append2) auto
  show ?thesis
    by (simp add: path_Split_def Let_def tw)
qed

lemma SplitN_no_sep: "sep \<notin> set s \<Longrightarrow> SplitN s sep (Suc n) = [s]"
  by (cases n) auto

lemma SplitN_sep:
  assumes "sep \<notin> set a"
  shows "SplitN (a @ sep # b) sep (Suc (Suc n)) = a # SplitN b sep (Suc n)"
proof -
  have a: "\<forall>c \<in> set a. c \<noteq> sep" using assms by auto
  have "takeWhile (\<lambda>c. c \<noteq> sep) (a @ sep # b) = a"
    using a by (simp add: takeWhile_tail)
  moreover have "dropWhile (\<lambda>c. c \<noteq> sep) (a @ sep # b) = sep # b"
    using a by (simp add: dropWhile_append3)
  ultimately show ?thesis by simp
qed

lemma Join_Cons: "ys \<noteq> [] \<Longrightarrow> Join (x # ys) sep = x @ sep @ Join ys sep"
  by (cases ys) auto

lemma SplitN_length2: "sep \<in> set s \<Longrightarrow> 2 \<le> length (SplitN s sep (Suc (Suc n)))"
  by (cases n) auto

lemma strip_last_aux:
  assumes "CHR ''.'' \<notin> set suf"
  shows "length (filter (\<lambda>c. c = CHR ''.'') s) < n \<Longrightarrow>
         Join (butlast (SplitN (s @ CHR ''.'' # suf) (CHR ''.'') (Suc n))) ''.'' = s"
proof (induction n arbitrary: s)
  case 0
  then show ?case by simp
next
  case (Suc m)
  show ?case
  proof (cases "CHR ''.'' \<in> set s")
    case False
    then have "SplitN (s @ CHR ''.'' # suf) (CHR ''.'') (Suc (Suc m)) = s # SplitN suf (CHR ''.'') (Suc m)"
      by (rule SplitN_sep)
    also have "SplitN suf (CHR ''.'') (Suc m) = [suf]"
      using assms by (rule SplitN_no_sep)
    finally show ?thesis by simp
  next
    case True
    then obtain a b where s: "s = a @ CHR ''.'' # b" "CHR ''.'' \<notin> set a"
      by (meson split_list_first)
    with Suc.prems have cnt: "length (filter (\<lambda>c. c = CHR ''.'') b) < m"
      by (simp add: filter_empty_conv)
    then obtain k where m: "m = Suc k" by (cases m) auto
    let ?rest = "SplitN (b @ CHR ''.'' # suf) (CHR ''.'') (Suc m)"
    have ih: "Join (butlast ?rest) ''.'' = b" using Suc.IH [OF cnt] .
    have len: "2 \<le> length ?rest" unfolding m by (rule SplitN_length2) simp
    then have ne: "?rest \<noteq> []" "butlast ?rest \<noteq> []"
      by (auto simp: butlast_conv_take)
    have "SplitN (s @ CHR ''.'' # suf) (CHR ''.'') (Suc (Suc m)) = a # ?rest"
      using s SplitN_sep [of "CHR ''.''" a "b @ CHR ''.'' # suf" m] by simp
    then show ?thesis using ne ih s by (simp add: Join_Cons)
  qed
qed

lemma strip_last_suffix:
  assumes "CHR ''.'' \<notin> set suf" "suf \<noteq> []"
  shows "strip_last (base @ ''.'' @ suf) = base"
proof -
  have "length (filter (\<lambda>c. c = CHR ''.'') base) \<le> length base" by simp
  also have "\<dots> < length base + length suf" using assms by simp
  finally have "Join (butlast (SplitN (base @ CHR ''.'' # suf) (CHR ''.'') (Suc (length base + length suf)))) ''.'' = base"
    by (rule strip_last_aux [OF assms(1)])
  then show ?thesis
    by (simp add: strip_last_def Let_def butlast_conv_take)
qed

lemma Join_snoc: "xs \<noteq> [] \<Longrightarrow> Join (xs @ [x]) sep = Join xs sep @ sep @ x"
  by (induction xs sep rule: Join.induct) auto

lemma Join_SplitN: "Join (SplitN s sep (Suc n)) [sep] = s"
proof (induction n arbitrary: s)
  case 0
  show ?case by simp
next
  case (Suc n)
  show ?case
  proof (cases "sep \<in> set s")
    case False
    then show ?thesis by simp
  next
    case True
    then obtain a b where s: "s = a @ sep # b" "sep \<notin> set a"
      by (meson split_list_first)
    have ne: "SplitN b sep (Suc n) \<noteq> []" by (cases n) auto
    show ?thesis
      unfolding s(1) SplitN_sep [OF s(2)] using ne Suc.IH [of b]
      by (simp add: Join_Cons)
  qed
qed

lemma strip_last_shorter:
  assumes "CHR ''.'' \<in> set name" "2 \<le> length name"
  shows "length (strip_last name) < length name"
proof -
  obtain k where k: "length name = Suc (Suc k)"
    using assms(2) by (metis Suc_le_D numeral_2_eq_2 Suc_le_mono)
  let ?nstr = "SplitN name (CHR ''.'') (length name)"
  have len: "2 \<le> length ?nstr" unfolding k using assms(1) by (rule SplitN_length2)
  then have ne: "?nstr \<noteq> []" "butlast ?nstr \<noteq> []" by (auto simp: butlast_conv_take)
  have "name = Join ?nstr ''.''" unfolding k by (rule Join_SplitN [symmetric])
  also have "\<dots> = Join (butlast ?nstr @ [last ?nstr]) ''.''" using ne by simp
  also have "\<dots> = Join (butlast ?nstr) ''.'' @ ''.'' @ last ?nstr"
    using ne(2) by (rule Join_snoc)
  finally have "length name = length (Join (butlast ?nstr) ''.'') + 1 + length (last ?nstr)"
    by (metis length_append add.assoc length_Cons list.size(3) One_nat_def)
  then show ?thesis by (simp add: strip_last_def Let_def butlast_conv_take)
qed

lemma outName_differs:
  assumes "outName fl p w = (Inr out, w1)"
  shows "out \<noteq> p"
proof (cases "decompress fl \<and> HasSuffix (snd (path_Split p)) (''.'' @ suffix fl)")
  case False
  with assms show ?thesis
    using path_Split_parts(1) [of p]
    by (auto simp: outName_def Let_def split: prod.splits if_splits)
next
  case True
  obtain d n where dn: "path_Split p = (d, n)" by (cases "path_Split p")
  with path_Split_parts(1) [of p] have p: "p = d @ n" by simp
  from True dn have hs: "HasSuffix n (''.'' @ suffix fl)" by simp
  with assms True dn have big: "length n > length (''.'' @ suffix fl)" and out: "out = d @ strip_last n"
    by (auto simp: outName_def Let_def split: if_splits)
  from hs have "CHR ''.'' \<in> set n" by (auto simp: HasSuffix_iff)
  moreover from big have "2 \<le> length n" by simp
  ultimately have "length (strip_last n) < length n" by (rule strip_last_shorter)
  with p out show ?thesis by auto
qed

section \<open>Facts about the system calls\<close>

lemmas os_defs = os_Lstat_def os_Stat_def os_Open_def os_Create_def os_Remove_def read_file_def
  write_file_def

lemmas pf_defs = processFile_def flag_conflict_def resolve_def check_overwrite_def transfer_def
  transfer_compress_def transfer_decompress_def producer_read_def open_input_def read_input_def
  open_output_def write_output_def remove_original_def test_file_def

lemmas ex_defs = default_flags_def toy_codec_def example_world_def example_fs_def

lemmas os_eval = os_defs refused_def PATH_MAX_def called_def Fprintf_Stderr_def

lemmas pf_eval = pf_defs outName_def Let_def path_Split_def HasSuffix_def strip_last_def

lemmas case_ifs = prod.case_eq_if sum.case_eq_if option.case_eq_if

lemma called_simps [simp]:
  "fs (called op p w) = fs w"
  "dirents (called op p w) = dirents w"
  "denied (called op p w) = denied w"
  "stdin_data (called op p w) = stdin_data w"
  "stdout_data (called op p w) = stdout_data w"
  "stderr_log (called op p w) = stderr_log w"
  "trace (called op p w) = trace w @ [(op, p)]"
  by (simp_all add: called_def)

lemma Fprintf_Stderr_simps [simp]:
  "fs (Fprintf_Stderr l w) = fs w"
  "dirents (Fprintf_Stderr l w) = dirents w"
  "denied (Fprintf_Stderr l w) = denied w"
  "stdin_data (Fprintf_Stderr l w) = stdin_data w"
  "stdout_data (Fprintf_Stderr l w) = stdout_data w"
  "stderr_log (Fprintf_Stderr l w) = stderr_log w @ [l]"
  "trace (Fprintf_Stderr l w) = trace w"
  by (simp_all add: Fprintf_Stderr_def)

lemma refused_cong [simp]:
  "refused (called op p w) = refused w"
  "refused (Fprintf_Stderr l w) = refused w"
  by (simp_all add: refused_def fun_eq_iff)

lemma refused_update [simp]:
  "refused (w\<lparr>fs := f\<rparr>) = refused w"
  "refused (w\<lparr>dirents := ds\<rparr>) = refused w"
  "refused (w\<lparr>stdin_data := i\<rparr>) = refused w"
  "refused (w\<lparr>stdout_data := out\<rparr>) = refused w"
  by (simp_all add: refused_def fun_eq_iff)

lemma refused_None_denied: "refused w op p = None \<Longrightarrow> \<not> denied w op p"
  by (auto simp: refused_def split: if_splits)

lemma refused_denied: "denied w' = denied w \<Longrightarrow> refused w' = refused w"
  by (simp add: refused_def fun_eq_iff)


lemma os_Remove_refused:
  "refused w OpRemove p = Some e \<Longrightarrow> fst (os_Remove p w) = Some (OSError OpRemove p e)"
  by (simp add: os_Remove_def)

lemma os_Remove_fs_at:
  "fs (snd (os_Remove p w)) p = None \<longleftrightarrow> fs w p = None \<or> fst (os_Remove p w) = None"
  by (auto simp: os_Remove_def split: option.splits prod.splits if_splits)

section \<open>Facts about the parts of processFile\<close>


lemma outName_world [simp]:
  "fs (snd (outName fl p w)) = fs w"
  "dirents (snd (outName fl p w)) = dirents w"
  "denied (snd (outName fl p w)) = denied w"
  "stdout_data (snd (outName fl p w)) = stdout_data w"
  "stdin_data (snd (outName fl p w)) = stdin_data w"
  "trace (snd (outName fl p w)) = trace w"
  "refused (snd (outName fl p w)) = refused w"
  by (simp_all add: outName_def Let_def split: prod.splits)

lemma name_not_HasSuffix:
  assumes "\<not> HasSuffix p s"
  shows "\<not> HasSuffix (snd (path_Split p)) s"
proof
  assume "HasSuffix (snd (path_Split p)) s"
  then obtain pre where "snd (path_Split p) = pre @ s" by (auto simp: HasSuffix_iff)
  with path_Split_parts(1) [of p] have "p = (fst (path_Split p) @ pre) @ s" by simp
  with assms show False unfolding HasSuffix_iff by blast
qed

lemma outName_fallback:
  assumes "decompress fl" "\<not> HasSuffix p (''.'' @ suffix fl)"
  shows "outName fl p w =
           (Inr (p @ ''.out''),
            Fprintf_Stderr (LogUsingOut p) (Fprintf_Stderr (LogNoSuffix p (suffix fl)) w))"
  using assms name_not_HasSuffix [OF assms(2)] path_Split_parts(1) [of p]
  by (auto simp: outName_def Let_def split: prod.splits)

lemma outName_compress:
  assumes "\<not> decompress fl" "\<not> HasSuffix p (''.'' @ suffix fl)"
  shows "outName fl p w = (Inr (p @ ''.'' @ suffix fl), w)"
  using assms by (simp add: outName_def)

lemma outName_strip:
  assumes "decompress fl" "suffix fl \<noteq> []" "CHR ''.'' \<notin> set (suffix fl)" "CHR ''/'' \<notin> set (suffix fl)"
    and "snd (path_Split p) \<noteq> []"
  shows "outName fl (p @ ''.'' @ suffix fl) w = (Inr p, w)"
proof -
  obtain d n where dn: "path_Split p = (d, n)" by (cases "path_Split p")
  with assms(5) path_Split_parts(1) [of p] have n: "n \<noteq> []" "p = d @ n" by auto
  have "CHR ''/'' \<notin> set (''.'' @ suffix fl)" using assms(4) by simp
  then have sp: "path_Split (p @ ''.'' @ suffix fl) = (d, n @ ''.'' @ suffix fl)"
    using path_Split_append [of "''.'' @ suffix fl" p] dn by simp
  have hs: "HasSuffix (n @ ''.'' @ suffix fl) (''.'' @ suffix fl)"
    unfolding HasSuffix_iff by blast
  have st: "strip_last (n @ ''.'' @ suffix fl) = n"
    using assms(2,3) by (intro strip_last_suffix) auto
  show ?thesis
    using assms(1) n hs st sp
    by (simp add: outName_def Let_def del: append.simps append_Cons)
qed


lemma producer_read_fs [simp]: "fs (snd (producer_read p w)) = fs w"
  by (simp add: producer_read_def open_input_def read_input_def os_Open_def
        split: option.splits prod.splits)

lemma open_output_fs_other:
  "q \<noteq> out \<or> stdout fl \<Longrightarrow> fs (snd (open_output fl out w)) q = fs w q"
  by (auto simp: open_output_def os_Create_def split: option.splits prod.splits node.splits)

lemma write_output_fs_other:
  "q \<noteq> out \<or> stdout fl \<Longrightarrow> fs (snd (write_output fl out d w)) q = fs w q"
  by (auto simp: write_output_def write_file_def)

lemma transfer_decompress_fs_other:
  assumes "q \<noteq> out \<or> stdout fl"
  shows "fs (snd (transfer_decompress cd fl p out w)) q = fs w q"
proof -
  obtain src w1 where pr: "producer_read p w = (src, w1)" by (cases "producer_read p w")
  then have w1: "fs w1 = fs w" using producer_read_fs [of p w] by simp
  obtain e2 w2 where oo: "open_output fl out w1 = (e2, w2)" by (cases "open_output fl out w1")
  then have w2: "fs w2 q = fs w q" using open_output_fs_other [OF assms, of w1] w1 by simp
  show ?thesis
  proof (cases "\<exists>d. NewReader_err cd = None \<and> e2 = None \<and> src = Inr d")
    case False
    then show ?thesis using pr oo w1 w2
      by (auto simp: transfer_decompress_def split: option.splits sum.splits)
  next
    case True
    then obtain d where d: "NewReader_err cd = None" "e2 = None" "src = Inr d" by blast
    obtain e3 w3 where wo: "write_output fl out (fst (decode cd d)) w2 = (e3, w3)"
      by (cases "write_output fl out (fst (decode cd d)) w2")
    then have "fs w3 q = fs w q"
      using write_output_fs_other [OF assms, of "fst (decode cd d)" w2] w2 by simp
    then show ?thesis using pr oo d wo
      by (auto simp: transfer_decompress_def split: option.splits)
  qed
qed

lemma transfer_compress_fs_other:
  assumes "q \<noteq> out \<or> stdout fl"
  shows "fs (snd (transfer_compress cd fl p out w)) q = fs w q"
proof -
  obtain src w1 where pr: "producer_read p w = (src, w1)" by (cases "producer_read p w")
  then have w1: "fs w1 = fs w" using producer_read_fs [of p w] by simp
  obtain e2 w2 where oo: "open_output fl out w1 = (e2, w2)" by (cases "open_output fl out w1")
  then have w2: "fs w2 q = fs w q" using open_output_fs_other [OF assms, of w1] w1 by simp
  have "fs (snd (write_output fl out d w')) q = fs w q" if "fs w' q = fs w q" for d w'
    using write_output_fs_other [OF assms, of d w'] that by simp
  then show ?thesis using pr oo w2
    by (auto simp: transfer_compress_def split: option.splits sum.splits)
qed

lemma transfer_fs_other:
  assumes "q \<noteq> out \<or> stdout fl"
  shows "fs (snd (transfer cd fl p out w)) q = fs w q"
  using transfer_decompress_fs_other [OF assms] transfer_compress_fs_other [OF assms]
  by (simp add: transfer_def)

lemma check_overwrite_fs_other:
  "q \<noteq> out \<Longrightarrow> fs (snd (check_overwrite fl out w)) q = fs w q"
  by (auto simp: check_overwrite_def os_Lstat_def os_Remove_def
        split: prod.splits option.splits sum.splits if_splits)

lemma check_overwrite_out:
  "fst (check_overwrite fl out w) = Inr out' \<Longrightarrow> out' = out"
  by (auto simp: check_overwrite_def os_Lstat_def os_Remove_def
        split: prod.splits option.splits sum.splits if_splits)

lemma resolve_input_exists:
  assumes "\<not> stdin fl" "resolve fl p w = (Inr out, w1)"
  shows "\<exists>d. fs w p = Some (File d)"
proof -
  from assms obtain f where f: "os_Lstat p w = (Inr f, called OpLstat p w)" "f \<noteq> Dir"
    by (auto simp: resolve_def os_Lstat_def split: if_splits option.splits)
  then show ?thesis
    by (cases f) (auto simp: os_Lstat_def split: option.splits)
qed

lemma resolve_named:
  assumes "\<not> stdout fl" "resolve fl p w = (Inr out, w1)"
  shows "\<not> stdin fl" "out \<noteq> p" "q \<noteq> out \<Longrightarrow> fs w1 q = fs w q"
proof -
  from assms show ns: "\<not> stdin fl" by (auto simp: resolve_def split: if_splits)
  from assms ns obtain f where f: "os_Lstat p w = (Inr f, called OpLstat p w)" "f \<noteq> Dir"
    by (auto simp: resolve_def os_Lstat_def split: if_splits option.splits)
  from assms ns f obtain o1 w2 where o: "outName fl p (called OpLstat p w) = (Inr o1, w2)"
    and c: "check_overwrite fl o1 w2 = (Inr out, w1)"
    by (auto simp: resolve_def split: if_splits sum.splits prod.splits)
  from c have o1: "o1 = out" using check_overwrite_out [of fl o1 w2 out] by simp
  with o show "out \<noteq> p" using outName_differs by blast
  from o have "fs w2 = fs w" using outName_world(1) [of fl p "called OpLstat p w"] by simp
  with c o1 show "fs w1 q = fs w q" if "q \<noteq> out"
    using check_overwrite_fs_other [OF that, of fl w2] by simp
qed

lemma resolve_stdout:
  assumes "stdout fl"
  shows "fs (snd (resolve fl p w)) = fs w"
  using assms by (auto simp: resolve_def os_Lstat_def split: option.splits)

lemma compress_file_ok:
  assumes codec: "NewWriter_err cd (level fl) = None"
    and mode: "\<not> test fl" "\<not> decompress fl" "\<not> stdout fl" "\<not> stdin fl" "suffix fl \<noteq> []"
    and input: "p \<noteq> ''-''" "fs w p = Some (File X)" "\<not> HasSuffix p (''.'' @ suffix fl)"
    and out: "fs w (p @ ''.'' @ suffix fl) = None"
    and perms: "\<forall>op. refused w op p = None" "\<forall>op. refused w op (p @ ''.'' @ suffix fl) = None"
  shows "fst (processFile cd fl p w) = None"
    and "fs (snd (processFile cd fl p w)) =
           (fs w)(p @ ''.'' @ suffix fl \<mapsto> File (encode cd (level fl) X),
                  p := if keep fl then Some (File X) else None)"
    and "denied (snd (processFile cd fl p w)) = denied w"
proof -
  let ?z = "p @ ''.'' @ suffix fl"
  have ne: "?z \<noteq> p" by simp
  have den: "\<not> denied w OpRead p" "\<not> denied w OpWrite ?z"
    using perms refused_None_denied by blast+
  have r: "resolve fl p w = (Inr ?z, called OpLstat ?z (called OpLstat p w))"
    using mode input out perms
    by (simp add: resolve_def os_Lstat_def outName_compress check_overwrite_def
          del: append.simps append_Cons)
  have t: "fst (transfer cd fl p ?z (called OpLstat ?z (called OpLstat p w))) = None
        \<and> fs (snd (transfer cd fl p ?z (called OpLstat ?z (called OpLstat p w)))) =
             (fs w)(?z \<mapsto> File (encode cd (level fl) X))
        \<and> denied (snd (transfer cd fl p ?z (called OpLstat ?z (called OpLstat p w)))) = denied w"
    using mode input out perms codec den
    by (auto simp: transfer_def transfer_compress_def producer_read_def open_input_def read_input_def
          open_output_def write_output_def os_Open_def os_Create_def read_file_def write_file_def
          split: prod.splits
          simp del: append.simps append_Cons)
  obtain w2 where t2: "transfer cd fl p ?z (called OpLstat ?z (called OpLstat p w)) = (None, w2)"
    and w2: "fs w2 = (fs w)(?z \<mapsto> File (encode cd (level fl) X))" "denied w2 = denied w"
    using t by (cases "transfer cd fl p ?z (called OpLstat ?z (called OpLstat p w))") auto
  have pf: "processFile cd fl p w = remove_original fl p w2"
    using mode by (simp add: processFile_def flag_conflict_def r t2 del: append.simps append_Cons)
  have ro: "fst (remove_original fl p w2) = None
          \<and> fs (snd (remove_original fl p w2)) = (fs w2)(p := if keep fl then Some (File X) else None)
          \<and> denied (snd (remove_original fl p w2)) = denied w"
    using mode input perms w2 ne refused_denied [OF w2(2)]
    by (auto simp: remove_original_def os_Remove_def fun_eq_iff split: prod.splits
          simp del: append.simps append_Cons)
  show "fst (processFile cd fl p w) = None" using pf ro by simp
  show "fs (snd (processFile cd fl p w)) =
           (fs w)(?z \<mapsto> File (encode cd (level fl) X), p := if keep fl then Some (File X) else None)"
    using pf ro w2 by simp
  show "denied (snd (processFile cd fl p w)) = denied w" using pf ro by simp
qed

lemma decompress_file_ok:
  assumes codec: "NewReader_err cd = None" "decode cd E = (X, None)"
    and mode: "\<not> test fl" "decompress fl" "\<not> stdout fl" "\<not> stdin fl"
    and suf: "suffix fl \<noteq> []" "CHR ''.'' \<notin> set (suffix fl)" "CHR ''/'' \<notin> set (suffix fl)"
    and input: "snd (path_Split p) \<noteq> []" "fs w (p @ ''.'' @ suffix fl) = Some (File E)"
    and out: "fs w p = None \<or> (force fl \<and> (\<exists>d. fs w p = Some (File d)))"
    and perms: "\<forall>op. refused w op p = None" "\<forall>op. refused w op (p @ ''.'' @ suffix fl) = None"
  shows "fst (processFile cd fl (p @ ''.'' @ suffix fl) w) = None"
    and "fs (snd (processFile cd fl (p @ ''.'' @ suffix fl) w)) p = Some (File X)"
proof -
  let ?z = "p @ ''.'' @ suffix fl"
  have ne: "?z \<noteq> p" by simp
  have zd: "?z \<noteq> ''-''" using input(1) path_Split_parts(1) [of p] by (cases p) auto
  have den: "\<not> denied w OpRead ?z" "\<not> denied w OpWrite p"
    using perms refused_None_denied by blast+
  have on: "outName fl ?z w' = (Inr p, w')" for w'
    using outName_strip [OF mode(2) suf input(1)] .
  define w1 where "w1 = snd (resolve fl ?z w)"
  have r: "fst (resolve fl ?z w) = Inr p \<and> fs w1 = (fs w)(p := None) \<and> denied w1 = denied w"
    unfolding w1_def using mode suf(1) input(2) out perms ne
    by (auto simp: resolve_def os_Lstat_def on check_overwrite_def os_Remove_def fun_eq_iff
          split: prod.splits simp del: append.simps append_Cons)
  then have r': "resolve fl ?z w = (Inr p, w1)" by (simp add: w1_def prod_eq_iff)
  define w2 where "w2 = snd (transfer cd fl ?z p w1)"
  have t: "fst (transfer cd fl ?z p w1) = None \<and> fs w2 = (fs w)(p \<mapsto> File X) \<and> denied w2 = denied w"
    unfolding w2_def using mode input(2) perms codec den r ne zd refused_denied [of w1 w]
    by (auto simp: transfer_def transfer_decompress_def producer_read_def open_input_def read_input_def
          open_output_def write_output_def os_Open_def os_Create_def read_file_def write_file_def
          fun_eq_iff
          split: prod.splits
          simp del: append.simps append_Cons)
  then have t': "transfer cd fl ?z p w1 = (None, w2)" by (simp add: w2_def prod_eq_iff)
  have pf: "processFile cd fl ?z w = remove_original fl ?z w2"
    using mode by (simp add: processFile_def flag_conflict_def r' t' del: append.simps append_Cons)
  have ro: "fst (remove_original fl ?z w2) = None \<and> fs (snd (remove_original fl ?z w2)) p = Some (File X)"
    using mode input(2) perms t ne refused_denied [of w2 w]
    by (auto simp: remove_original_def os_Remove_def split: prod.splits
          simp del: append.simps append_Cons)
  show "fst (processFile cd fl ?z w) = None" using pf ro by simp
  show "fs (snd (processFile cd fl ?z w)) p = Some (File X)" using pf ro by simp
qed

lemma outName_cant_strip:
  assumes "decompress fl" "snd (path_Split p) = ''.'' @ suffix fl"
  shows "outName fl p w = (Inl (CantStrip (suffix fl) p), w)"
  using assms by (auto simp: outName_def Let_def HasSuffix_def split: prod.splits)

lemma check_overwrite_trace:
  "\<exists>rest. trace (snd (check_overwrite fl out w)) = trace w @ rest"
  by (auto simp: check_overwrite_def os_Lstat_def os_Remove_def case_ifs Let_def)

lemma resolve_file_Lstat:
  assumes "\<not> stdin fl"
  shows "\<exists>rest. trace (snd (resolve fl p w)) = trace w @ (OpLstat, p) # rest"
proof -
  obtain rest where
    "trace (snd (check_overwrite fl (projr (fst (outName fl p (called OpLstat p w))))
        (snd (outName fl p (called OpLstat p w))))) = (trace w @ [(OpLstat, p)]) @ rest"
    using check_overwrite_trace
      [of fl "projr (fst (outName fl p (called OpLstat p w)))" "snd (outName fl p (called OpLstat p w))"]
    by auto
  then show ?thesis using assms
    by (auto simp: resolve_def os_Lstat_def case_ifs)
qed

lemma processFile_dash_missing:
  assumes "\<not> test fl" "\<not> stdin fl" "flag_conflict fl = None" "fs w ''-'' = None"
  shows "processFile cd fl ''-'' w =
           (Some (OSError OpLstat ''-''
                    (case refused w OpLstat ''-'' of None \<Rightarrow> ENOENT | Some e \<Rightarrow> e)),
            called OpLstat ''-'' w)"
  using assms by (simp add: processFile_def resolve_def os_Lstat_def split: option.splits)

section \<open>Facts about recording failures\<close>

lemma recordsI:
  assumes "\<And>h w. snd (f (h, w)) = snd (f (False, w))"
    and "\<And>h w. fst (f (h, w)) = (h \<or> fst (f (False, w)))"
    and "\<And>w. failures w \<le> failures (snd (f (False, w)))"
    and "\<And>w. fst (f (False, w)) = (failures w < failures (snd (f (False, w))))"
  shows "records f"
  using assms unfolding records_def by blast

lemma recordsD:
  assumes "records f"
  shows "f (h, w) = (h \<or> fst (f (False, w)), snd (f (False, w)))"
    and "failures w \<le> failures (snd (f (False, w)))"
    and "fst (f (False, w)) = (failures w < failures (snd (f (False, w))))"
proof -
  from assms have "snd (f (h, w)) = snd (f (False, w))"
    and "fst (f (h, w)) = (h \<or> fst (f (False, w)))"
    unfolding records_def by blast+
  then show "f (h, w) = (h \<or> fst (f (False, w)), snd (f (False, w)))"
    by (intro prod_eqI) (simp_all only: fst_conv snd_conv)
  from assms show "failures w \<le> failures (snd (f (False, w)))"
    unfolding records_def by blast
  from assms show "fst (f (False, w)) = (failures w < failures (snd (f (False, w))))"
    unfolding records_def by blast
qed

lemma records_comp:
  assumes f: "records f" and g: "records g"
  shows "records (\<lambda>r. g (f r))"
proof (rule recordsI)
  fix h w
  obtain a w1 where fw: "f (False, w) = (a, w1)" by (cases "f (False, w)")
  have fh: "f (h, w) = (h \<or> a, w1)" for h using recordsD(1) [OF f, of h w] fw by simp
  have gh: "g (b, w1) = (b \<or> fst (g (False, w1)), snd (g (False, w1)))" for b
    using recordsD(1) [OF g, of b w1] .
  show "snd (g (f (h, w))) = snd (g (f (False, w)))"
    using fh [of h] fh [of False] gh [of "h \<or> a"] gh [of a] by simp
  show "fst (g (f (h, w))) = (h \<or> fst (g (f (False, w))))"
    using fh [of h] fh [of False] gh [of "h \<or> a"] gh [of a] by auto
  have le1: "failures w \<le> failures w1" and a: "a = (failures w < failures w1)"
    using recordsD(2,3) [OF f, of w] fw by simp_all
  have le2: "failures w1 \<le> failures (snd (g (False, w1)))"
    and b: "fst (g (False, w1)) = (failures w1 < failures (snd (g (False, w1))))"
    using recordsD(2,3) [OF g, of w1] by simp_all
  show "failures w \<le> failures (snd (g (f (False, w))))"
    using fw gh [of a] le1 le2 by simp
  show "fst (g (f (False, w))) = (failures w < failures (snd (g (f (False, w)))))"
    using fw gh [of a] le1 le2 a b by auto
qed

lemma records_world:
  assumes "\<And>w. failures (g w) = failures w"
  shows "records (\<lambda>r. (fst r, g (snd r)))"
  using assms by (intro recordsI) simp_all

lemma records_id: "records (\<lambda>r. r)"
  by (intro recordsI) simp_all

lemma records_record_failure:
  assumes "is_failure l"
  shows "records (record_failure l)"
  using assms by (intro recordsI) (simp_all add: record_failure_def failures_def)

lemma failures_simps [simp]:
  "failures (called op p w) = failures w"
  "failures (w\<lparr>fs := f\<rparr>) = failures w"
  "failures (w\<lparr>dirents := ds\<rparr>) = failures w"
  "failures (w\<lparr>stdin_data := i\<rparr>) = failures w"
  "failures (w\<lparr>stdout_data := out\<rparr>) = failures w"
  "failures (Fprintf_Stderr l w) = (if is_failure l then Suc (failures w) else failures w)"
  by (simp_all add: failures_def called_def Fprintf_Stderr_def)

lemma os_failures [simp]:
  "failures (snd (os_Lstat p w)) = failures w"
  "failures (snd (os_Stat p w)) = failures w"
  "failures (snd (os_Open p w)) = failures w"
  "failures (snd (os_Create p w)) = failures w"
  "failures (snd (os_Remove p w)) = failures w"
  "failures (snd (write_file p d w)) = failures w"
  "failures (snd (readDirNames p w)) = failures w"
  by (simp_all add: os_defs readDirNames_def split: option.splits prod.splits node.splits)

lemma outName_failures [simp]: "failures (snd (outName fl p w)) = failures w"
  by (simp add: outName_def Let_def split: prod.splits)

lemma check_overwrite_failures [simp]: "failures (snd (check_overwrite fl out w)) = failures w"
  by (simp add: check_overwrite_def case_ifs)

lemma resolve_failures [simp]: "failures (snd (resolve fl p w)) = failures w"
  by (simp add: resolve_def case_ifs)

lemma producer_read_failures [simp]: "failures (snd (producer_read p w)) = failures w"
  by (simp add: producer_read_def open_input_def read_input_def case_ifs)

lemma open_output_failures [simp]: "failures (snd (open_output fl out w)) = failures w"
  by (simp add: open_output_def)

lemma write_output_failures [simp]: "failures (snd (write_output fl out d w)) = failures w"
  by (simp add: write_output_def)

lemma transfer_failures [simp]: "failures (snd (transfer cd fl p out w)) = failures w"
  by (simp add: transfer_def transfer_compress_def transfer_decompress_def case_ifs)

lemma test_file_failures [simp]: "failures (snd (test_file cd fl p w)) = failures w"
  by (simp add: test_file_def open_input_def read_input_def case_ifs)

lemma remove_original_failures [simp]: "failures (snd (remove_original fl p w)) = failures w"
  by (simp add: remove_original_def)

lemma processFile_failures [simp]: "failures (snd (processFile cd fl p w)) = failures w"
  by (simp add: processFile_def case_ifs)

lemma records_run_processFile: "records (run_processFile cd fl f)"
  by (rule recordsI) (simp_all add: run_processFile_def record_failure_def case_ifs)

lemma records_walkFn: "records (walkFn cd fl path fi err)"
proof (cases err)
  case (Some e)
  then have "walkFn cd fl path fi err = record_failure (LogError path e)"
    by (simp add: walkFn_def fun_eq_iff)
  then show ?thesis by (simp add: records_record_failure)
next
  case None
  show ?thesis
  proof (cases "\<exists>d. fi = Some (File d)")
    case True
    with None have "walkFn cd fl path fi err = run_processFile cd fl path"
      by (auto simp: walkFn_def fun_eq_iff)
    then show ?thesis by (simp add: records_run_processFile)
  next
    case False
    with None have "walkFn cd fl path fi err = (\<lambda>r. r)"
      by (auto simp: walkFn_def fun_eq_iff split: option.splits node.splits)
    then show ?thesis by (simp add: records_id)
  qed
qed

lemma records_choice_after:
  assumes g: "\<And>w. records (g w)" and W: "\<And>w. failures (W w) = failures w"
  shows "records (\<lambda>r. g (snd r) (fst r, W (snd r)))"
proof (rule recordsI)
  fix h w
  note d = recordsD [OF g [of w], where w = "W w"]
  show "snd (g (snd (h, w)) (fst (h, w), W (snd (h, w)))) =
        snd (g (snd (False, w)) (fst (False, w), W (snd (False, w))))"
    using d(1) [of h] by simp
  show "fst (g (snd (h, w)) (fst (h, w), W (snd (h, w)))) =
        (h \<or> fst (g (snd (False, w)) (fst (False, w), W (snd (False, w)))))"
    using d(1) [of h] by simp
  show "failures w \<le> failures (snd (g (snd (False, w)) (fst (False, w), W (snd (False, w)))))"
    using d(2) W [of w] by simp
  show "fst (g (snd (False, w)) (fst (False, w), W (snd (False, w)))) =
        (failures w < failures (snd (g (snd (False, w)) (fst (False, w), W (snd (False, w))))))"
    using d(3) W [of w] by simp
qed

lemma records_walk_both:
  "(\<forall>info. records (walk cd fl path info)) \<and> (\<forall>names. records (walk_names cd fl path names))"
proof (induction "Suc PATH_MAX - length path" arbitrary: path rule: less_induct)
  case less
  have names: "records (walk_names cd fl path names)" for names
  proof (induction names)
    case Nil
    have "walk_names cd fl path [] = (\<lambda>r. r)" by (simp add: fun_eq_iff)
    then show ?case by (simp add: records_id)
  next
    case (Cons name names)
    let ?filename = "path @ ''/'' @ name"
    let ?g = "\<lambda>w. case fst (os_Lstat ?filename w) of
                   Inl e \<Rightarrow> walkFn cd fl ?filename None (Some (OSError OpLstat ?filename e))
                 | Inr fileInfo \<Rightarrow> walk cd fl ?filename fileInfo"
    have g: "records (?g w)" for w
    proof (cases "fst (os_Lstat ?filename w)")
      case (Inl e)
      then show ?thesis by (simp add: records_walkFn)
    next
      case (Inr fileInfo)
      then have "length ?filename \<le> PATH_MAX"
        by (auto simp: os_Lstat_def refused_def split: option.splits if_splits)
      then have "Suc PATH_MAX - length ?filename < Suc PATH_MAX - length path" by simp
      from less [OF this] Inr show ?thesis by simp
    qed
    have step: "records (\<lambda>r. ?g (snd r) (fst r, called OpLstat ?filename (snd r)))"
      by (rule records_choice_after [of ?g, OF g]) simp
    have eq: "walk_names cd fl path (name # names) =
                (\<lambda>r. walk_names cd fl path names (?g (snd r) (fst r, called OpLstat ?filename (snd r))))"
      by (auto simp: fun_eq_iff Let_def os_Lstat_def split: option.splits sum.splits prod.splits)
    show ?case unfolding eq by (rule records_comp [OF step Cons.IH])
  qed
  have "records (walk cd fl path info)" for info
  proof (cases "info = Dir")
    case False
    then have "walk cd fl path info = walkFn cd fl path (Some info) None"
      by (simp add: fun_eq_iff)
    then show ?thesis by (simp add: records_walkFn)
  next
    case True
    let ?g = "\<lambda>w. case fst (readDirNames path w) of
                   Inl e \<Rightarrow> walkFn cd fl path (Some info) (Some (OSError OpReadDir path e))
                 | Inr ns \<Rightarrow> (\<lambda>r. walk_names cd fl path ns (walkFn cd fl path (Some info) None r))"
    have g: "records (?g w)" for w
      by (cases "fst (readDirNames path w)")
        (simp_all add: records_walkFn records_comp [OF records_walkFn names])
    have step: "records (\<lambda>r. ?g (snd r) (fst r, called OpReadDir path (snd r)))"
      by (rule records_choice_after [of ?g, OF g]) simp
    have eq: "walk cd fl path info = (\<lambda>r. ?g (snd r) (fst r, called OpReadDir path (snd r)))"
      using True
      by (auto simp: fun_eq_iff readDirNames_def split: option.splits sum.splits prod.splits)
    show ?thesis unfolding eq by (rule step)
  qed
  with names show ?case by blast
qed

lemma records_Walk: "records (Walk cd fl root)"
proof -
  let ?g = "\<lambda>w. case fst (os_Lstat root w) of
                 Inl e \<Rightarrow> walkFn cd fl root None (Some (OSError OpLstat root e))
               | Inr info \<Rightarrow> walk cd fl root info"
  have g: "records (?g w)" for w
    using records_walk_both [of cd fl root]
    by (cases "fst (os_Lstat root w)") (simp_all add: records_walkFn)
  have step: "records (\<lambda>r. ?g (snd r) (fst r, called OpLstat root (snd r)))"
    by (rule records_choice_after [of ?g, OF g]) simp
  have eq: "Walk cd fl root = (\<lambda>r. ?g (snd r) (fst r, called OpLstat root (snd r)))"
    by (auto simp: Walk_def fun_eq_iff os_Lstat_def split: option.splits sum.splits prod.splits)
  show ?thesis unfolding eq by (rule step)
qed

lemma records_job: "records (job cd fl file)"
proof (cases "file = ''-''")
  case True
  then have "job cd fl file = run_processFile cd fl file" by (simp add: job_def fun_eq_iff)
  then show ?thesis by (simp add: records_run_processFile)
next
  case False
  let ?g = "\<lambda>w. case fst (os_Stat file w) of
                 Inl e \<Rightarrow> record_failure (LogError file (OSError OpStat file e))
               | Inr info \<Rightarrow>
                   if info = Dir then
                     (if recursive fl then Walk cd fl file else record_failure (LogIsDir file))
                   else run_processFile cd fl file"
  have g: "records (?g w)" for w
    by (cases "fst (os_Stat file w)")
      (simp_all add: records_record_failure records_Walk records_run_processFile)
  have step: "records (\<lambda>r. ?g (snd r) (fst r, called OpStat file (snd r)))"
    by (rule records_choice_after [of ?g, OF g]) simp
  have eq: "job cd fl file = (\<lambda>r. ?g (snd r) (fst r, called OpStat file (snd r)))"
    using False
    by (auto simp: job_def fun_eq_iff os_Stat_def split: option.splits sum.splits prod.splits)
  show ?thesis unfolding eq by (rule step)
qed

lemma records_run_jobs: "records (run_jobs cd fl files)"
proof (induction files)
  case Nil
  have "run_jobs cd fl [] = (\<lambda>r. r)" by (simp add: fun_eq_iff)
  then show ?case by (simp add: records_id)
next
  case (Cons f files)
  have "run_jobs cd fl (f # files) = (\<lambda>r. run_jobs cd fl files (job cd fl f r))"
    by (simp add: fun_eq_iff)
  then show ?case using records_comp [OF records_job Cons.IH] by simp
qed

lemma run_jobs_some_job_fails:
  "fst (run_jobs cd fl files (False, w)) = some_job_fails cd fl files w"
proof (induction files arbitrary: w)
  case Nil
  show ?case by simp
next
  case (Cons f files)
  have "run_jobs cd fl (f # files) (False, w) =
          run_jobs cd fl files (job_fails cd fl f w, world_after cd fl f w)"
    by (simp add: job_fails_def world_after_def)
  also have "fst \<dots> = (job_fails cd fl f w \<or>
      fst (run_jobs cd fl files (False, world_after cd fl f w)))"
    using recordsD(1) [OF records_run_jobs [of cd fl files],
        where h = "job_fails cd fl f w" and w = "world_after cd fl f w"]
    by simp
  finally show ?case using Cons.IH by simp
qed

lemma digit_level_fields [simp]:
  "help_flag (digit_level fl) = help_flag fl"
  "cores (digit_level fl) = cores fl"
  "cores_set (digit_level fl) = cores_set fl"
  by (simp_all add: digit_level_def split: list.splits)

section \<open>Facts about the units of work\<close>

lemma run_processFile_outcomes:
  "run_processFile cd fl f (h, w) =
     (h \<or> list_ex failed (fst (file_job cd fl f w)), snd (file_job cd fl f w))"
  by (simp add: run_processFile_def file_job_def record_failure_def split: prod.splits option.splits)

lemma record_failure_outcomes:
  "record_failure l (h, w) =
     (h \<or> list_ex failed (fst (lookup_failed f l w)), snd (lookup_failed f l w))"
  by (simp add: record_failure_def lookup_failed_def)

lemma walk_outcomes:
  "(\<forall>info h w. walk cd fl path info (h, w) =
      (h \<or> list_ex failed (fst (entry_outcomes cd fl path info w)),
       snd (entry_outcomes cd fl path info w)))
   \<and> (\<forall>names h w. walk_names cd fl path names (h, w) =
      (h \<or> list_ex failed (fst (names_outcomes cd fl path names w)),
       snd (names_outcomes cd fl path names w)))"
proof (induction "Suc PATH_MAX - length path" arbitrary: path rule: less_induct)
  case less
  have names: "walk_names cd fl path names (h, w) =
      (h \<or> list_ex failed (fst (names_outcomes cd fl path names w)),
       snd (names_outcomes cd fl path names w))" for names h w
  proof (induction names arbitrary: h w)
    case Nil
    show ?case by simp
  next
    case (Cons name names)
    let ?filename = "path @ ''/'' @ name"
    show ?case
    proof (cases "os_Lstat ?filename w")
      case (Pair r w1)
      show ?thesis
      proof (cases r)
        case (Inl e)
        with Pair show ?thesis
          by (simp add: Let_def walkFn_def record_failure_def lookup_failed_def Cons.IH)
      next
        case (Inr fileInfo)
        with Pair have "length ?filename \<le> PATH_MAX"
          by (auto simp: os_Lstat_def refused_def split: option.splits if_splits)
        then have "Suc PATH_MAX - length ?filename < Suc PATH_MAX - length path" by simp
        from less [OF this]
        have "walk cd fl ?filename fileInfo (h, w1) =
                (h \<or> list_ex failed (fst (entry_outcomes cd fl ?filename fileInfo w1)),
                 snd (entry_outcomes cd fl ?filename fileInfo w1))"
          by blast
        with Pair Inr show ?thesis
          by (simp add: Let_def Cons.IH disj_assoc)
      qed
    qed
  qed
  have entry: "walk cd fl path info (h, w) =
      (h \<or> list_ex failed (fst (entry_outcomes cd fl path info w)),
       snd (entry_outcomes cd fl path info w))" for info h w
  proof (cases "info = Dir")
    case False
    then obtain d where "info = File d" by (cases info) auto
    then show ?thesis
      by (simp add: walkFn_def run_processFile_outcomes)
  next
    case True
    show ?thesis
    proof (cases "readDirNames path w")
      case (Pair r w1)
      show ?thesis
      proof (cases r)
        case (Inl e)
        with Pair True show ?thesis
          by (simp add: walkFn_def record_failure_def lookup_failed_def)
      next
        case (Inr ns)
        with Pair True show ?thesis
          by (simp add: walkFn_def names)
      qed
    qed
  qed
  from names entry show ?case by blast
qed

lemma Walk_outcomes:
  "Walk cd fl root (h, w) =
     (h \<or> list_ex failed (fst (tree_outcomes cd fl root w)), snd (tree_outcomes cd fl root w))"
proof (cases "os_Lstat root w")
  case (Pair r w1)
  show ?thesis
  proof (cases r)
    case (Inl e)
    with Pair show ?thesis
      by (simp add: Walk_def tree_outcomes_def walkFn_def record_failure_def lookup_failed_def)
  next
    case (Inr info)
    with Pair show ?thesis
      using walk_outcomes [of cd fl root] by (simp add: Walk_def tree_outcomes_def)
  qed
qed

lemma job_jobs_outcomes:
  "job cd fl f (h, w) =
     (h \<or> list_ex failed (fst (job_outcomes cd fl f w)), snd (job_outcomes cd fl f w))"
proof (cases "f = ''-''")
  case True
  then show ?thesis by (simp add: job_def job_outcomes_def run_processFile_outcomes)
next
  case False
  show ?thesis
  proof (cases "os_Stat f w")
    case (Pair r w1)
    show ?thesis
    proof (cases r)
      case (Inl e)
      with Pair False show ?thesis
        by (simp add: job_def job_outcomes_def record_failure_def lookup_failed_def)
    next
      case (Inr info)
      with Pair False show ?thesis
        by (simp add: job_def job_outcomes_def record_failure_def lookup_failed_def
              Walk_outcomes run_processFile_outcomes)
    qed
  qed
qed

lemma run_jobs_outcomes:
  "run_jobs cd fl files (h, w) =
     (h \<or> list_ex failed (fst (run_outcomes cd fl files w)), snd (run_outcomes cd fl files w))"
proof (induction files arbitrary: h w)
  case Nil
  show ?case by simp
next
  case (Cons f files)
  show ?case
    by (simp add: job_jobs_outcomes Cons.IH Let_def disj_assoc)
qed

section \<open>Facts about the gate\<close>

lemma count_update:
  "i < length xs \<Longrightarrow>
     length (filter P (xs[i := y])) + (if P (xs ! i) then 1 else 0) =
     length (filter P xs) + (if P y then 1 else 0)"
proof (induction xs arbitrary: i)
  case Nil
  then show ?case by simp
next
  case (Cons x xs)
  show ?case
  proof (cases i)
    case 0
    then show ?thesis by simp
  next
    case (Suc k)
    with Cons.prems have "k < length xs" by simp
    from Cons.IH [OF this] Suc show ?thesis by simp
  qed
qed

lemma ball_update:
  assumes "\<forall>j \<in> set xs. P j" "P y"
  shows "\<forall>j \<in> set (xs[i := y]). P j"
  using assms set_update_subset_insert [of xs i y] by blast

lemma admitted_update:
  assumes "i < length (jobs g)" "jobs g' = (jobs g)[i := (c, k)]"
  shows "admitted g' + (if fst (jobs g ! i) = Admitted then 1 else 0)
         = admitted g + (if c = Admitted then 1 else 0)"
  using count_update [OF assms(1), of "\<lambda>j. fst j = Admitted" "(c, k)"]
  by (simp add: admitted_def assms(2))

lemma queued_update:
  assumes "\<forall>j \<in> set (jobs g). fst j = Queued \<longrightarrow> snd j = 0"
    and "jobs g' = (jobs g)[i := (c, k)]" "c = Queued \<longrightarrow> k = 0"
  shows "\<forall>j \<in> set (jobs g'). fst j = Queued \<longrightarrow> snd j = 0"
  unfolding assms(2) using assms(1,3) by (intro ball_update) simp_all

lemma gate_step_invariant:
  assumes "gate_step cap g g'"
    and "sem_len g = admitted g" "sem_len g \<le> cap"
    and "\<forall>j \<in> set (jobs g). fst j = Queued \<longrightarrow> snd j = 0"
  shows "sem_len g' = admitted g' \<and> sem_len g' \<le> cap \<and> length (jobs g') = length (jobs g)
       \<and> (\<forall>j \<in> set (jobs g'). fst j = Queued \<longrightarrow> snd j = 0)"
  using assms(1)
proof (cases rule: gate_step.cases)
  case (send i)
  have j: "jobs g' = (jobs g)[i := (Admitted, snd (jobs g ! i))]"
    and s: "sem_len g' = Suc (sem_len g)" by (simp_all add: send(1))
  have q: "\<forall>j \<in> set (jobs g'). fst j = Queued \<longrightarrow> snd j = 0"
    by (rule queued_update [OF assms(4) j]) simp
  have "admitted g' = Suc (admitted g)"
    using admitted_update [OF send(2) j] send(3) by simp
  moreover have "length (jobs g') = length (jobs g)" by (simp add: j)
  moreover note q
  ultimately show ?thesis using s send(4) assms(2,3) by simp
next
  case (spawn i)
  have j: "jobs g' = (jobs g)[i := (Admitted, Suc (snd (jobs g ! i)))]"
    and s: "sem_len g' = sem_len g" by (simp_all add: spawn(1))
  have q: "\<forall>j \<in> set (jobs g'). fst j = Queued \<longrightarrow> snd j = 0"
    by (rule queued_update [OF assms(4) j]) simp
  have "admitted g' = admitted g"
    using admitted_update [OF spawn(2) j] spawn(3) by simp
  moreover have "length (jobs g') = length (jobs g)" by (simp add: j)
  moreover note q
  ultimately show ?thesis using s assms(2,3) by simp
next
  case (finish i)
  have j: "jobs g' = (jobs g)[i := (fst (jobs g ! i), snd (jobs g ! i) - 1)]"
    and s: "sem_len g' = sem_len g" by (simp_all add: finish(1))
  from finish(2) have "jobs g ! i \<in> set (jobs g)" by simp
  with assms(4) finish(3) have nq: "fst (jobs g ! i) \<noteq> Queued" by auto
  have q: "\<forall>j \<in> set (jobs g'). fst j = Queued \<longrightarrow> snd j = 0"
    by (rule queued_update [OF assms(4) j]) (simp add: nq)
  have "admitted g' = admitted g"
    using admitted_update [OF finish(2) j] by simp
  moreover have "length (jobs g') = length (jobs g)" by (simp add: j)
  moreover note q
  ultimately show ?thesis using s assms(2,3) by simp
next
  case (recv i)
  have j: "jobs g' = (jobs g)[i := (Finished, snd (jobs g ! i))]"
    and s: "sem_len g' = sem_len g - 1" by (simp_all add: recv(1))
  have q: "\<forall>j \<in> set (jobs g'). fst j = Queued \<longrightarrow> snd j = 0"
    by (rule queued_update [OF assms(4) j]) simp
  have "Suc (admitted g') = admitted g"
    using admitted_update [OF recv(2) j] recv(3) by simp
  moreover have "length (jobs g') = length (jobs g)" by (simp add: j)
  moreover note q
  ultimately show ?thesis using s recv(4) assms(2,3) by simp arith
qed

lemma gate_reach_invariant:
  assumes "gate_reach cap n g"
  shows "sem_len g = admitted g \<and> sem_len g \<le> cap \<and> length (jobs g) = n
       \<and> (\<forall>j \<in> set (jobs g). fst j = Queued \<longrightarrow> snd j = 0)"
  using assms
proof (induction rule: gate_reach.induct)
  case start
  show ?case by (simp add: admitted_def)
next
  case (step g g')
  then show ?case using gate_step_invariant [of cap g g'] by simp
qed

lemma gate_example_cap:
  "sem_cap (job_flags (digit_level (default_flags\<lparr>cores := 1, cores_set := True\<rparr>)) [''a'', ''b''] True 8) = 1"
  "length (job_files [''a'', ''b'']) = 2"
  by (simp_all add: sem_cap_def job_flags_def digit_level_def default_flags_def job_files_def)

lemma gate_example_reach:
  "gate_reach 1 2 \<lparr>sem_len = 1, jobs = [(Finished, 1), (Admitted, 1)]\<rparr>"
proof -
  let ?g0 = "\<lparr>sem_len = 0, jobs = replicate 2 (Queued, 0)\<rparr>"
  let ?g1 = "\<lparr>sem_len = 1, jobs = [(Admitted, 0), (Queued, 0)]\<rparr>"
  let ?g2 = "\<lparr>sem_len = 1, jobs = [(Admitted, 1), (Queued, 0)]\<rparr>"
  let ?g3 = "\<lparr>sem_len = 0, jobs = [(Finished, 1), (Queued, 0)]\<rparr>"
  let ?g4 = "\<lparr>sem_len = 1, jobs = [(Finished, 1), (Admitted, 0)]\<rparr>"
  let ?g5 = "\<lparr>sem_len = 1, jobs = [(Finished, 1), (Admitted, 1)]\<rparr>"
  have r0: "gate_reach 1 2 ?g0" by (rule gate_reach.start)
  have "gate_step 1 ?g0 ?g1" using gate_step.send [of 0 ?g0 1] by (simp add: numeral_2_eq_2)
  with r0 have r1: "gate_reach 1 2 ?g1" by (rule gate_reach.step)
  have "gate_step 1 ?g1 ?g2" using gate_step.spawn [of 0 ?g1 1] by simp
  with r1 have r2: "gate_reach 1 2 ?g2" by (rule gate_reach.step)
  have "gate_step 1 ?g2 ?g3" using gate_step.recv [of 0 ?g2 1] by simp
  with r2 have r3: "gate_reach 1 2 ?g3" by (rule gate_reach.step)
  have "gate_step 1 ?g3 ?g4" using gate_step.send [of 1 ?g3 1] by simp
  with r3 have r4: "gate_reach 1 2 ?g4" by (rule gate_reach.step)
  have "gate_step 1 ?g4 ?g5" using gate_step.spawn [of 1 ?g4 1] by simp
  with r4 show ?thesis by (rule gate_reach.step)
qed

section \<open>Properties of a job\<close>

text \<open>
  C1. Compressing a file and decompressing the result gives the file back, byte
  for byte, at every level at which the codec's decoder inverts its encoder.
  A regular file \<open>p\<close> with contents \<open>X\<close> is compressed in place: the job
  succeeds and leaves \<open>p.S\<close> holding the encoded stream. Decompressing \<open>p.S\<close> in
  the world the first job left succeeds and leaves \<open>p\<close> holding \<open>X\<close>. The
  system refuses no call on the two paths, \<open>p.S\<close> does not exist beforehand,
  the suffix \<open>S\<close> is not empty and has neither a dot nor a slash in it, and
  when the first job keeps the original, the second one is allowed to
  overwrite it.
\<close>

theorem roundtrip_files:
  assumes codec: "NewWriter_err cd (level fl) = None" "NewReader_err cd = None"
      "decode cd (encode cd (level fl) X) = (X, None)"
    and mode: "\<not> test fl" "\<not> decompress fl" "\<not> stdout fl" "\<not> stdin fl"
    and suf: "suffix fl \<noteq> []" "CHR ''.'' \<notin> set (suffix fl)" "CHR ''/'' \<notin> set (suffix fl)"
    and input: "snd (path_Split p) \<noteq> []" "p \<noteq> ''-''" "fs w p = Some (File X)"
      "\<not> HasSuffix p (''.'' @ suffix fl)"
    and out: "fs w (p @ ''.'' @ suffix fl) = None"
    and keepforce: "keep fl \<longrightarrow> force fl"
    and perms: "\<forall>op. refused w op p = None" "\<forall>op. refused w op (p @ ''.'' @ suffix fl) = None"
  shows "fst (processFile cd fl p w) = None
       \<and> fs (snd (processFile cd fl p w)) (p @ ''.'' @ suffix fl) = Some (File (encode cd (level fl) X))
       \<and> fst (processFile cd (fl\<lparr>decompress := True\<rparr>) (p @ ''.'' @ suffix fl) (snd (processFile cd fl p w))) = None
       \<and> fs (snd (processFile cd (fl\<lparr>decompress := True\<rparr>) (p @ ''.'' @ suffix fl)
                 (snd (processFile cd fl p w)))) p = Some (File X)"
proof -
  let ?z = "p @ ''.'' @ suffix fl"
  let ?w1 = "snd (processFile cd fl p w)"
  let ?fl = "fl\<lparr>decompress := True\<rparr>"
  note c = compress_file_ok [OF codec(1) mode suf(1) input(2,3,4) out perms]
  have z: "fs ?w1 ?z = Some (File (encode cd (level fl) X))"
    and p: "fs ?w1 p = (if keep fl then Some (File X) else None)"
    by (simp_all add: c(2) del: append.simps append_Cons)
  have d: "fst (processFile cd ?fl (p @ ''.'' @ suffix ?fl) ?w1) = None
         \<and> fs (snd (processFile cd ?fl (p @ ''.'' @ suffix ?fl) ?w1)) p = Some (File X)"
    using decompress_file_ok [of cd "encode cd (level fl) X" X ?fl p ?w1]
      codec mode suf input(1) z p keepforce perms refused_denied [OF c(3)]
    by (simp del: append.simps append_Cons)
  show ?thesis using c(1) z d by (simp del: append.simps append_Cons)
qed

theorem roundtrip_files_witness:
  "fst (processFile toy_codec default_flags ''report.txt'' example_world) = None
   \<and> fs (snd (processFile toy_codec default_flags ''report.txt'' example_world)) ''report.txt.bz2''
       = Some (File ''Bhello world'')
   \<and> fs (snd (processFile toy_codec (default_flags\<lparr>decompress := True\<rparr>) ''report.txt.bz2''
              (snd (processFile toy_codec default_flags ''report.txt'' example_world)))) ''report.txt''
       = Some (File ''hello world'')"
  using roundtrip_files [of toy_codec default_flags "''hello world''" "''report.txt''" example_world]
  by (simp add: path_Split_def HasSuffix_def refused_def PATH_MAX_def ex_defs)

text \<open>
  C2. The claim fails on the code. The argument \<^verbatim>\<open>-\<close> is given on the command
  line, with \<^verbatim>\<open>-c\<close>. \<^verbatim>\<open>main\<close> skips its own \<^verbatim>\<open>os.Stat\<close> for it, but the global
  \<^verbatim>\<open>stdin\<close> is set only when there is no argument at all, so \<^verbatim>\<open>processFile\<close> takes
  the branch for files and calls \<^verbatim>\<open>os.Lstat\<close> on the path \<^verbatim>\<open>-\<close>. No such file
  exists, the job fails, standard input is never read, and the exit status is 1.
  (In every world the first system call of such a job is that \<^verbatim>\<open>os.Lstat\<close>, see
  \<open>resolve_file_Lstat\<close> and \<open>processFile_dash_missing\<close>; only test mode takes
  \<^verbatim>\<open>-\<close> for standard input without looking it up.)
\<close>

theorem dash_argument_is_looked_up:
  "main toy_codec (default_flags\<lparr>stdout := True\<rparr>) [''-''] True 4 id example_world =
     (1, example_world\<lparr>stderr_log := [LogError ''-'' (OSError OpLstat ''-'' ENOENT)],
                       trace := [(OpLstat, ''-'')]\<rparr>)"
  by (simp add: main_def digit_level_def job_flags_def job_files_def job_def run_processFile_def
        record_failure_def pf_eval os_eval ex_defs)

text \<open>
  C3. The claim fails on the code for a suffix with a dot in it. The suffix is
  \<^verbatim>\<open>tar.bz2\<close> and the input is \<^verbatim>\<open>a.tar.bz2\<close>: the name ends with the dot and the
  suffix, stripping them leaves \<^verbatim>\<open>a\<close>, but the code splits the name at its dots
  and drops the last piece only, so the output path is \<^verbatim>\<open>a.tar\<close>. (For a suffix
  without a dot the two agree, see \<open>outName_strip\<close>; a name that is nothing
  but the dot and the suffix is refused, see \<open>outName_cant_strip\<close>.)
\<close>

theorem dotted_suffix_not_stripped:
  "fst (resolve (default_flags\<lparr>decompress := True, suffix := ''tar.bz2'', suffix_set := True\<rparr>)
          ''a.tar.bz2'' example_world) = Inr ''a.tar''"
  by (simp add: pf_eval os_eval ex_defs)

text \<open>
  C4, as stated, fails: decompressing \<^verbatim>\<open>notes\<close>, which lacks the suffix, succeeds
  and writes \<^verbatim>\<open>notes.out\<close>, but the input is not left untouched. It is removed,
  as after every successful job that writes a named file without \<^verbatim>\<open>-k\<close>.
\<close>

theorem fallback_removes_input:
  "fst (processFile toy_codec (default_flags\<lparr>decompress := True\<rparr>) ''notes'' example_world) = None
   \<and> fs (snd (processFile toy_codec (default_flags\<lparr>decompress := True\<rparr>) ''notes'' example_world))
        ''notes.out'' = Some (File ''notes'')
   \<and> fs (snd (processFile toy_codec (default_flags\<lparr>decompress := True\<rparr>) ''notes'' example_world))
        ''notes'' \<noteq> fs example_world ''notes''"
  by (simp add: pf_eval os_eval ex_defs)

text \<open>
  C4, amended. A decompressing job that writes a named file and whose input
  \<open>p\<close> does not end with the dot and the suffix prints the two warning lines
  and takes \<open>p.out\<close> as its output path. When that path is free, the system
  refuses nothing and the decoder accepts the input, the job succeeds,
  \<open>p.out\<close> holds the decoded bytes, and the input is removed unless keep is
  set; with keep it is left as it was.
\<close>

theorem fallback_out_name:
  assumes mode: "\<not> test fl" "decompress fl" "\<not> stdout fl" "\<not> stdin fl" "suffix fl \<noteq> []"
    and input: "p \<noteq> ''-''" "refused w OpLstat p = None" "fs w p = Some (File d)"
      "\<not> HasSuffix p (''.'' @ suffix fl)"
    and read: "refused w OpOpen p = None" "\<not> denied w OpRead p"
    and codec: "NewReader_err cd = None" "snd (decode cd d) = None"
    and out: "fs w (p @ ''.out'') = None" "refused w OpCreate (p @ ''.out'') = None"
      "\<not> denied w OpWrite (p @ ''.out'')"
    and remove: "keep fl \<or> refused w OpRemove p = None"
  shows "outName fl p w =
           (Inr (p @ ''.out''),
            Fprintf_Stderr (LogUsingOut p) (Fprintf_Stderr (LogNoSuffix p (suffix fl)) w))
       \<and> fst (processFile cd fl p w) = None
       \<and> stderr_log (snd (processFile cd fl p w)) =
           stderr_log w @ [LogNoSuffix p (suffix fl), LogUsingOut p] @
             (if verbose fl then [LogDone p] else [])
       \<and> fs (snd (processFile cd fl p w)) (p @ ''.out'') = Some (File (fst (decode cd d)))
       \<and> fs (snd (processFile cd fl p w)) p = (if keep fl then Some (File d) else None)"
proof -
  have r: "resolve fl p w =
     (Inr (p @ ''.out''), called OpLstat (p @ ''.out'')
        (Fprintf_Stderr (LogUsingOut p) (Fprintf_Stderr (LogNoSuffix p (suffix fl)) (called OpLstat p w))))"
    using mode input out
    by (simp add: resolve_def os_Lstat_def outName_fallback check_overwrite_def split: option.splits)
  show ?thesis
    using mode input read codec out remove
    by (auto simp: processFile_def flag_conflict_def r outName_fallback transfer_def transfer_decompress_def
          producer_read_def open_input_def read_input_def open_output_def
          write_output_def remove_original_def os_Open_def os_Create_def os_Remove_def read_file_def write_file_def
          split: prod.splits option.splits)
qed

theorem fallback_out_name_witness:
  "fst (processFile toy_codec (default_flags\<lparr>decompress := True, keep := True\<rparr>) ''notes'' example_world) = None
   \<and> fs (snd (processFile toy_codec (default_flags\<lparr>decompress := True, keep := True\<rparr>) ''notes'' example_world))
        ''notes.out'' = Some (File ''notes'')
   \<and> fs (snd (processFile toy_codec (default_flags\<lparr>decompress := True, keep := True\<rparr>) ''notes'' example_world))
        ''notes'' = Some (File ''Bnotes'')
   \<and> stderr_log (snd (processFile toy_codec (default_flags\<lparr>decompress := True, keep := True\<rparr>) ''notes'' example_world))
        = [LogNoSuffix ''notes'' ''bz2'', LogUsingOut ''notes'']"
  using fallback_out_name
    [of "default_flags\<lparr>decompress := True, keep := True\<rparr>" "''notes''" example_world "''Bnotes''" toy_codec]
  by (simp add: HasSuffix_def refused_def PATH_MAX_def ex_defs)



text \<open>
  C6. A compressing or decompressing job has resolved its input and output and
  its transfer has succeeded, leaving the world \<open>w2\<close>. Then the job ends with
  the removal of the original exactly when the output is a named file, keep is
  not set and the path is not \<^verbatim>\<open>-\<close>; otherwise it succeeds and leaves \<open>w2\<close>.
  When the input is a file (not standard input), it is still there after the
  transfer, and it is gone at the end if and only if the three conditions hold
  and the job succeeded. The result of the removal is the result of the job:
  when the system refuses it, the job fails with that error.
\<close>

theorem original_removed_after_transfer:
  assumes "\<not> test fl" "flag_conflict fl = None"
    and res: "resolve fl p w = (Inr out, w1)"
    and tr: "transfer cd fl p out w1 = (None, w2)"
  shows "processFile cd fl p w =
           (if \<not> stdout fl \<and> \<not> keep fl \<and> p \<noteq> ''-'' then os_Remove p w2 else (None, w2))
       \<and> (\<not> stdin fl \<longrightarrow> fs w2 p \<noteq> None)
       \<and> (fs (snd (processFile cd fl p w)) p = None \<longleftrightarrow>
            fs w2 p = None \<or>
            (\<not> stdout fl \<and> \<not> keep fl \<and> p \<noteq> ''-'' \<and> fst (processFile cd fl p w) = None))
       \<and> (\<forall>e. \<not> stdout fl \<and> \<not> keep fl \<and> p \<noteq> ''-'' \<and> refused w2 OpRemove p = Some e \<longrightarrow>
              fst (processFile cd fl p w) = Some (OSError OpRemove p e))"
proof -
  have pf: "processFile cd fl p w = remove_original fl p w2"
    using assms by (simp add: processFile_def)
  have there: "fs w2 p \<noteq> None" if "\<not> stdin fl"
  proof (cases "stdout fl")
    case True
    with res have "fs w1 = fs w" using resolve_stdout [of fl p w] by simp
    moreover from tr True have "fs w2 p = fs w1 p" using transfer_fs_other [of p out fl cd p w1] by simp
    ultimately show ?thesis using resolve_input_exists [OF that res] by auto
  next
    case False
    have "out \<noteq> p" by (rule resolve_named(2) [OF False res])
    then have "fs w1 p = fs w p" using resolve_named(3) [OF False res, of p] by auto
    moreover from tr \<open>out \<noteq> p\<close> have "fs w2 p = fs w1 p" using transfer_fs_other [of p out fl cd p w1] by auto
    ultimately show ?thesis using resolve_input_exists [OF that res] by auto
  qed
  show ?thesis
    unfolding pf using there
    by (auto simp: remove_original_def os_Remove_fs_at os_Remove_refused)
qed

theorem original_removed_after_transfer_witness:
  "fst (processFile toy_codec (default_flags\<lparr>decompress := True\<rparr>) ''missing.bz2'' example_world)
     = Some (OSError OpRemove ''missing.bz2'' EACCES)
   \<and> fs (snd (processFile toy_codec (default_flags\<lparr>decompress := True\<rparr>) ''missing.bz2'' example_world))
        ''missing.bz2'' \<noteq> None"
  using original_removed_after_transfer
    [of "default_flags\<lparr>decompress := True\<rparr>" "''missing.bz2''" example_world "''missing''"
      "snd (resolve (default_flags\<lparr>decompress := True\<rparr>) ''missing.bz2'' example_world)"
      toy_codec
      "snd (transfer toy_codec (default_flags\<lparr>decompress := True\<rparr>) ''missing.bz2'' ''missing''
         (snd (resolve (default_flags\<lparr>decompress := True\<rparr>) ''missing.bz2'' example_world)))"]
  by (simp add: pf_eval os_eval ex_defs)

text \<open>
  C7. In test mode a job changes neither the file system nor the directory
  listings nor standard output, whatever the other flags are: no output file is
  written and the original is not removed. The only system call it makes is
  opening its input. It prints the OK line exactly when it succeeds and verbose
  is set, and it succeeds exactly when the flags do not conflict, the input can
  be opened and read, and the decoder accepts it.
\<close>

theorem test_mode_frame:
  assumes "test fl"
  shows "fs (snd (processFile cd fl p w)) = fs w
       \<and> dirents (snd (processFile cd fl p w)) = dirents w
       \<and> stdout_data (snd (processFile cd fl p w)) = stdout_data w
       \<and> set (trace (snd (processFile cd fl p w))) \<subseteq> set (trace w) \<union> {(OpOpen, p)}
       \<and> stderr_log (snd (processFile cd fl p w)) =
           stderr_log w @ (if fst (processFile cd fl p w) = None \<and> verbose fl then [LogOK p] else [])
       \<and> (fst (processFile cd fl p w) = None \<longleftrightarrow>
            flag_conflict fl = None \<and> NewReader_err cd = None \<and>
            (if p = ''-'' then snd (decode cd (stdin_data w)) = None
             else refused w OpOpen p = None \<and> \<not> denied w OpRead p \<and>
                  (\<exists>d. fs w p = Some (File d) \<and> snd (decode cd d) = None)))"
  using assms
  by (auto simp add: processFile_def test_file_def open_input_def read_input_def read_file_def
        os_Open_def
        split: option.splits sum.splits prod.splits node.splits if_splits)

theorem test_mode_frame_witness:
  "test (default_flags\<lparr>test := True, verbose := True\<rparr>)
   \<and> fst (processFile toy_codec (default_flags\<lparr>test := True, verbose := True\<rparr>) ''old.bz2'' example_world) = None
   \<and> fs (snd (processFile toy_codec (default_flags\<lparr>test := True, verbose := True\<rparr>) ''old.bz2'' example_world)) = example_fs
   \<and> stderr_log (snd (processFile toy_codec (default_flags\<lparr>test := True, verbose := True\<rparr>) ''old.bz2'' example_world)) = [LogOK ''old.bz2'']"
  using test_mode_frame
    [of "default_flags\<lparr>test := True, verbose := True\<rparr>" toy_codec "''old.bz2''" example_world]
  by (simp add: default_flags_def flag_conflict_def toy_codec_def refused_def PATH_MAX_def
        example_world_def example_fs_def)

text \<open>
  C10. A job that reads a file and writes a named file (neither test mode, nor
  standard output, nor standard input) with an empty suffix fails: with the
  error of \<^verbatim>\<open>os.Lstat\<close> when the input cannot be looked up, with the directory
  error when the input is a directory, with the empty-suffix error otherwise.
  The only thing it has done is that one \<^verbatim>\<open>os.Lstat\<close>: no output name is derived
  (no warning is printed), nothing is created, written or removed.
\<close>

theorem empty_suffix_rejected:
  assumes "\<not> test fl" "\<not> stdout fl" "\<not> stdin fl" "suffix fl = []"
  shows "processFile cd fl p w =
           (Some (case fst (os_Lstat p w) of
                    Inl e \<Rightarrow> OSError OpLstat p e
                  | Inr f \<Rightarrow> if f = Dir then IsDirectory p else EmptySuffix),
            called OpLstat p w)"
  using assms
  by (simp add: processFile_def flag_conflict_def resolve_def os_Lstat_def split: option.splits)

theorem empty_suffix_rejected_witness:
  "processFile toy_codec (default_flags\<lparr>suffix := [], suffix_set := True\<rparr>) ''report.txt'' example_world =
     (Some EmptySuffix, called OpLstat ''report.txt'' example_world)"
  using empty_suffix_rejected
    [of "default_flags\<lparr>suffix := [], suffix_set := True\<rparr>" toy_codec "''report.txt''" example_world]
  by (simp add: default_flags_def os_Lstat_def refused_def PATH_MAX_def example_world_def example_fs_def)

section \<open>Properties of a run\<close>

text \<open>
  C8. The goroutines are taken one after the other, in any order \<open>sched\<close>.
  A run gets past the validation of its flags: the level is between 1 and 9,
  help is not asked for, and a number of cores given by the user is between 1
  and 32. Then \<^verbatim>\<open>main\<close> does what the units of work say: it leaves the world
  they leave, and its exit status is 1 when one of them has failed and 0 when
  none has. A unit is an argument that is a job, an argument whose look-up
  fails, a directory given without recursion, or an entry of a traversal; a
  job fails exactly when \<^verbatim>\<open>processFile\<close> returns an error. The units after a
  failed one are run from the world it left, as after one that succeeded. The
  exit status is also 1 exactly when a failure line has been printed, and the
  world a job leaves and whether it fails do not depend on whether a job
  before it has failed.
\<close>

theorem exit_status:
  assumes "1 \<le> level (digit_level fl0)" "level (digit_level fl0) \<le> 9"
    and "\<not> help_flag fl0"
    and "cores_set fl0 \<longrightarrow> 1 \<le> cores fl0 \<and> cores fl0 \<le> 32"
  shows "main cd fl0 args isatty numCPU sched w =
           (if list_ex failed
                 (fst (run_outcomes cd (job_flags (digit_level fl0) args isatty numCPU)
                         (sched (job_files args)) w))
            then 1 else 0,
            snd (run_outcomes cd (job_flags (digit_level fl0) args isatty numCPU)
                   (sched (job_files args)) w))
       \<and> fst (main cd fl0 args isatty numCPU sched w) =
           (if some_job_fails cd (job_flags (digit_level fl0) args isatty numCPU)
                 (sched (job_files args)) w
            then 1 else 0)
       \<and> fst (main cd fl0 args isatty numCPU sched w) =
           (if failures w < failures (snd (main cd fl0 args isatty numCPU sched w)) then 1 else 0)
       \<and> (\<forall>fl f h w'. job cd fl f (h, w') = (h \<or> job_fails cd fl f w', world_after cd fl f w'))"
proof -
  let ?fl = "job_flags (digit_level fl0) args isatty numCPU"
  let ?files = "sched (job_files args)"
  have m: "main cd fl0 args isatty numCPU sched w =
      (if fst (run_jobs cd ?fl ?files (False, w)) then 1 else 0, snd (run_jobs cd ?fl ?files (False, w)))"
    using assms by (auto simp: main_def Let_def split: prod.splits)
  have o: "run_jobs cd ?fl ?files (False, w) =
      (list_ex failed (fst (run_outcomes cd ?fl ?files w)), snd (run_outcomes cd ?fl ?files w))"
    using run_jobs_outcomes [of cd ?fl ?files False w] by simp
  have a: "fst (run_jobs cd ?fl ?files (False, w)) = some_job_fails cd ?fl ?files w"
    by (rule run_jobs_some_job_fails)
  have b: "fst (run_jobs cd ?fl ?files (False, w)) =
      (failures w < failures (snd (run_jobs cd ?fl ?files (False, w))))"
    by (rule recordsD(3) [OF records_run_jobs])
  have c: "job cd fl f (h, w') = (h \<or> job_fails cd fl f w', world_after cd fl f w')" for fl f h w'
    using recordsD(1) [OF records_job, of cd fl f h w'] by (simp add: job_fails_def world_after_def)
  have 1: "main cd fl0 args isatty numCPU sched w =
           (if list_ex failed (fst (run_outcomes cd ?fl ?files w)) then 1 else 0,
            snd (run_outcomes cd ?fl ?files w))"
    unfolding m o by simp
  have 2: "fst (main cd fl0 args isatty numCPU sched w) =
           (if some_job_fails cd ?fl ?files w then 1 else 0)"
    unfolding m using a by simp
  have 3: "fst (main cd fl0 args isatty numCPU sched w) =
           (if failures w < failures (snd (main cd fl0 args isatty numCPU sched w)) then 1 else 0)"
    unfolding m using b by simp
  from 1 2 3 c show ?thesis by blast
qed

lemmas run_eval = job_outcomes_def tree_outcomes_def file_job_def lookup_failed_def
  readDirNames_def job_flags_def digit_level_def job_files_def tree_world_def

theorem exit_status_witness:
  "fst (main toy_codec default_flags [''report.txt'', ''nosuch''] True 4 id example_world) = 1
   \<and> fs (snd (main toy_codec default_flags [''report.txt'', ''nosuch''] True 4 id example_world))
        ''report.txt.bz2'' = Some (File ''Bhello world'')
   \<and> fs (snd (main toy_codec default_flags [''report.txt'', ''nosuch''] True 4 id example_world))
        ''report.txt'' = None
   \<and> fst (main toy_codec default_flags [''old.bz2''] True 4 id example_world) = 1
   \<and> fst (main toy_codec (default_flags\<lparr>recursive := True\<rparr>) [''tree''] True 4 id tree_world) = 1
   \<and> fs (snd (main toy_codec (default_flags\<lparr>recursive := True\<rparr>) [''tree''] True 4 id tree_world))
        ''tree/a.bz2'' = Some (File ''Bdata'')
   \<and> fst (main toy_codec default_flags [''report.txt''] True 4 id example_world) = 0"
  using exit_status
      [of default_flags toy_codec "[''report.txt'', ''nosuch'']" True 4 id example_world, THEN conjunct1]
    exit_status
      [of default_flags toy_codec "[''old.bz2'']" True 4 id example_world, THEN conjunct1]
    exit_status
      [of "default_flags\<lparr>recursive := True\<rparr>" toy_codec "[''tree'']" True 4 id tree_world,
        THEN conjunct1]
    exit_status
      [of default_flags toy_codec "[''report.txt'']" True 4 id example_world, THEN conjunct1]
  by (simp add: run_eval pf_eval os_eval ex_defs)

text \<open>
  C9, as stated, fails. One core is given and there are two files. The first
  job takes the slot, starts its producer and returns early (its output file
  cannot be created, say); the slot is free again while the producer still
  reads and encodes. The second job takes the slot and starts its producer.
  Now two jobs are transferring data when the producer counts with its job,
  and one core was given.
\<close>

theorem producer_outlives_slot:
  "gate_reach
     (sem_cap (job_flags (digit_level (default_flags\<lparr>cores := 1, cores_set := True\<rparr>)) [''a'', ''b''] True 8))
     (length (job_files [''a'', ''b'']))
     \<lparr>sem_len = 1, jobs = [(Finished, 1), (Admitted, 1)]\<rparr>
   \<and> transferring \<lparr>sem_len = 1, jobs = [(Finished, 1), (Admitted, 1)]\<rparr> = 2
   \<and> \<not> transferring \<lparr>sem_len = 1, jobs = [(Finished, 1), (Admitted, 1)]\<rparr> \<le> nat 1"
  using gate_example_reach by (simp add: gate_example_cap transferring_def)

text \<open>
  C9, amended. The user gives \<open>N\<close> cores, \<open>N\<close> between 1 and 32. The channel
  then has capacity \<open>N\<close>, and in every state the dispatcher can reach, at most
  \<open>N\<close> goroutines of \<^verbatim>\<open>main\<close> are between their send and their receive, and no
  producer runs for a goroutine that has not passed its send: a producer is
  always started within the slot of its job. (It need not end there.)
\<close>

theorem gate_bound:
  assumes "cores_set fl0" "1 \<le> N" "N \<le> 32" "cores fl0 = N"
    and "gate_reach (sem_cap (job_flags (digit_level fl0) args isatty numCPU))
           (length (job_files args)) g"
  shows "admitted g \<le> nat N \<and> (\<forall>j \<in> set (jobs g). fst j = Queued \<longrightarrow> snd j = 0)"
proof -
  have "sem_cap (job_flags (digit_level fl0) args isatty numCPU) = nat N"
    using assms(2,4) by (simp add: sem_cap_def job_flags_def Let_def)
  with assms(5) show ?thesis using gate_reach_invariant by fastforce
qed

theorem gate_bound_witness:
  "gate_reach 1 2 \<lparr>sem_len = 1, jobs = [(Finished, 1), (Admitted, 1)]\<rparr>
   \<and> admitted \<lparr>sem_len = 1, jobs = [(Finished, 1), (Admitted, 1)]\<rparr> \<le> 1"
proof -
  let ?fl = "default_flags\<lparr>cores := 1, cores_set := True\<rparr>"
  let ?g = "\<lparr>sem_len = 1, jobs = [(Finished, 1), (Admitted, 1)]\<rparr>"
  have r: "gate_reach (sem_cap (job_flags (digit_level ?fl) [''a'', ''b''] True 8))
             (length (job_files [''a'', ''b''])) ?g"
    using gate_example_reach by (simp add: gate_example_cap)
  have "admitted ?g \<le> nat 1"
    using gate_bound [of ?fl 1, OF _ _ _ _ r] by (simp add: default_flags_def)
  with gate_example_reach show ?thesis by simp
qed

end
